theory Spec2Isabelle
  imports Main "HOL-Library.Word"
begin

unbundle bit_operations_syntax

section \<open>Arbitrary-precision integers of the analysis width\<close>

text \<open>
  Every \<open>APInt\<close> that the range analysis stores has the width \<open>MAX_BIT_INT\<close>, a process-wide
  value fixed before the constraint graph is built. The width is the type parameter
  \<open>'a\<close> of \<open>'a word\<close>: \<open>LENGTH('a)\<close> is \<open>MAX_BIT_INT\<close>. Arithmetic on \<open>'a word\<close> wraps
  around, as it does on \<open>APInt\<close>.
\<close>

text \<open>\<open>APInt::getSignedMinValue(MAX_BIT_INT)\<close>: only the sign bit is set.\<close>

definition Min :: "'a::len word" where
  "Min = push_bit (LENGTH('a) - 1) 1"

text \<open>\<open>APInt::getSignedMaxValue(MAX_BIT_INT)\<close>: every bit but the sign bit is set.\<close>

definition Max :: "'a::len word" where
  "Max = NOT Min"

definition Zero :: "'a::len word" where
  "Zero = 0"

text \<open>Signed comparisons of \<open>APInt\<close>.\<close>

definition slt :: "'a::len word \<Rightarrow> 'a word \<Rightarrow> bool" where
  "slt x y = (x <s y)"

definition sgt :: "'a::len word \<Rightarrow> 'a word \<Rightarrow> bool" where
  "sgt x y = (y <s x)"

definition sle :: "'a::len word \<Rightarrow> 'a word \<Rightarrow> bool" where
  "sle x y = (x \<le>s y)"

definition sge :: "'a::len word \<Rightarrow> 'a word \<Rightarrow> bool" where
  "sge x y = (y \<le>s x)"

definition isNegative :: "'a::len word \<Rightarrow> bool" where
  "isNegative x = bit x (LENGTH('a) - 1)"

text \<open>Unsigned division and remainder; the callers never pass a zero divisor.\<close>

definition APInt_udiv :: "'a::len word \<Rightarrow> 'a word \<Rightarrow> 'a word" where
  "APInt_udiv x y = x div y"

definition APInt_urem :: "'a::len word \<Rightarrow> 'a word \<Rightarrow> 'a word" where
  "APInt_urem x y = x mod y"

text \<open>
  Signed division and remainder, as \<open>APInt\<close> computes them: on the magnitudes, with the
  sign restored afterwards (truncation towards zero).
\<close>

definition APInt_sdiv :: "'a::len word \<Rightarrow> 'a word \<Rightarrow> 'a word" where
  "APInt_sdiv x y =
     (if isNegative x then
        (if isNegative y then APInt_udiv (- x) (- y) else - (APInt_udiv (- x) y))
      else if isNegative y then - (APInt_udiv x (- y))
      else APInt_udiv x y)"

definition APInt_srem :: "'a::len word \<Rightarrow> 'a word \<Rightarrow> 'a word" where
  "APInt_srem x y =
     (if isNegative x then
        (if isNegative y then - (APInt_urem (- x) (- y)) else - (APInt_urem (- x) y))
      else if isNegative y then APInt_urem x (- y)
      else APInt_urem x y)"

text \<open>Shifts by an \<open>APInt\<close> amount; an amount of the width or more shifts every bit out.\<close>

definition APInt_shl :: "'a::len word \<Rightarrow> 'a word \<Rightarrow> 'a word" where
  "APInt_shl x n = push_bit (unat n) x"

definition APInt_lshr :: "'a::len word \<Rightarrow> 'a word \<Rightarrow> 'a word" where
  "APInt_lshr x n = drop_bit (unat n) x"

definition APInt_ashr :: "'a::len word \<Rightarrow> 'a word \<Rightarrow> 'a word" where
  "APInt_ashr x n = signed_drop_bit (unat n) x"

definition APInt_And :: "'a::len word \<Rightarrow> 'a word \<Rightarrow> 'a word" where
  "APInt_And x y = x AND y"

definition APInt_Or :: "'a::len word \<Rightarrow> 'a word \<Rightarrow> 'a word" where
  "APInt_Or x y = x OR y"

definition APInt_Xor :: "'a::len word \<Rightarrow> 'a word \<Rightarrow> 'a word" where
  "APInt_Xor x y = x XOR y"

section \<open>Intervals\<close>

datatype RangeType = Unknown | Regular | Empty

text \<open>
  The class \<open>Range\<close>: the fields \<open>l\<close>, \<open>u\<close> and \<open>type\<close>, read through \<open>getLower\<close>,
  \<open>getUpper\<close> and the kind tests. The constructor's third argument defaults to \<open>Regular\<close>
  in the source and is written out here.
\<close>

datatype 'w Range = Range (getLower: 'w) (getUpper: 'w) (getType: RangeType)

definition isUnknown :: "'a::len word Range \<Rightarrow> bool" where
  "isUnknown r = (getType r = Unknown)"

definition isRegular :: "'a::len word Range \<Rightarrow> bool" where
  "isRegular r = (getType r = Regular)"

definition isEmpty :: "'a::len word Range \<Rightarrow> bool" where
  "isEmpty r = (getType r = Empty)"

definition isMaxRange :: "'a::len word Range \<Rightarrow> bool" where
  "isMaxRange r = (getLower r = Min \<and> getUpper r = Max)"

text \<open>\<open>Range::operator==\<close>: same kind and same endpoints.\<close>

definition Range_eq :: "'a::len word Range \<Rightarrow> 'a word Range \<Rightarrow> bool" where
  "Range_eq r other =
     (getType r = getType other \<and> getLower r = getLower other \<and> getUpper r = getUpper other)"

definition Range_ne :: "'a::len word Range \<Rightarrow> 'a word Range \<Rightarrow> bool" where
  "Range_ne r other =
     (getType r \<noteq> getType other \<or> getLower r \<noteq> getLower other \<or> getUpper r \<noteq> getUpper other)"

subsection \<open>Addition, subtraction, multiplication\<close>

definition Range_add :: "'a::len word Range \<Rightarrow> 'a word Range \<Rightarrow> 'a word Range" where
  "Range_add r other =
     (let l = (if getLower r \<noteq> Min \<and> getLower other \<noteq> Min
               then getLower r + getLower other else Min);
          u = (if getUpper r \<noteq> Max \<and> getUpper other \<noteq> Max
               then getUpper r + getUpper other else Max)
      in Range l u Regular)"

definition Range_sub :: "'a::len word Range \<Rightarrow> 'a word Range \<Rightarrow> 'a word Range" where
  "Range_sub r other =
     (let a = getLower r; b = getUpper r; c = getLower other; d = getUpper other;
          l = (if a = Min \<or> d = Max then Min else a - d);
          u = (if b = Max \<or> c = Min then Max else b - c)
      in Range l u Regular)"

text \<open>The macro \<open>MUL_HELPER\<close>: a product in which \<open>Min\<close> and \<open>Max\<close> stand for the infinities.\<close>

definition MUL_HELPER :: "'a::len word \<Rightarrow> 'a word \<Rightarrow> 'a word" where
  "MUL_HELPER x y =
     (if x = Max then (if slt y Zero then Min else if y = Zero then Zero else Max)
      else if y = Max then (if slt x Zero then Min else if x = Zero then Zero else Max)
      else if x = Min then (if slt y Zero then Max else if y = Zero then Zero else Min)
      else if y = Min then (if slt x Zero then Max else if x = Zero then Zero else Min)
      else x * y)"

text \<open>
  The loop of \<open>Range::mul\<close> over \<open>candidates[1..3]\<close>: the state is the pair of the current
  minimum and maximum.
\<close>

fun mul_scan :: "'a::len word \<times> 'a word \<Rightarrow> 'a word list \<Rightarrow> 'a word \<times> 'a word" where
  "mul_scan (mn, mx) [] = (mn, mx)"
| "mul_scan (mn, mx) (c # cs) =
     (if sgt c mx then mul_scan (mn, c) cs
      else if slt c mn then mul_scan (c, mx) cs
      else mul_scan (mn, mx) cs)"

definition Range_mul :: "'a::len word Range \<Rightarrow> 'a word Range \<Rightarrow> 'a word Range" where
  "Range_mul r other =
     (if isMaxRange r \<or> isMaxRange other then Range Min Max Regular
      else
        let a = getLower r; b = getUpper r; c = getLower other; d = getUpper other;
            (mn, mx) = mul_scan (MUL_HELPER a c, MUL_HELPER a c)
                         [MUL_HELPER a d, MUL_HELPER b c, MUL_HELPER b d]
        in Range mn mx Regular)"

subsection \<open>Division and remainder\<close>

definition Range_udiv :: "'a::len word Range \<Rightarrow> 'a word Range \<Rightarrow> 'a word Range" where
  "Range_udiv r other =
     (let ll = (if getLower r \<noteq> Min \<and> getLower other \<noteq> Min \<and> getLower other \<noteq> 0
                then APInt_udiv (getLower r) (getLower other) else Min);
          lu = (if getLower r \<noteq> Min \<and> getUpper other \<noteq> Max \<and> getUpper other \<noteq> 0
                then APInt_udiv (getLower r) (getUpper other) else Min);
          ul = (if getUpper r \<noteq> Max \<and> getLower other \<noteq> Min \<and> getLower other \<noteq> 0
                then APInt_udiv (getUpper r) (getLower other) else Max);
          uu = (if getUpper r \<noteq> Max \<and> getUpper other \<noteq> Max \<and> getUpper other \<noteq> 0
                then APInt_udiv (getUpper r) (getUpper other) else Max);
          l = (if slt ll lu then ll else lu);
          u = (if sgt uu ul then uu else ul)
      in Range l u Regular)"

definition Range_sdiv :: "'a::len word Range \<Rightarrow> 'a word Range \<Rightarrow> 'a word Range" where
  "Range_sdiv r other =
     (let ll = (if getLower r \<noteq> Min \<and> getLower other \<noteq> Min \<and> getLower other \<noteq> 0
                then APInt_sdiv (getLower r) (getLower other) else Min);
          lu = (if getLower r \<noteq> Min \<and> getUpper other \<noteq> Max \<and> getUpper other \<noteq> 0
                then APInt_sdiv (getLower r) (getUpper other) else Min);
          ul = (if getUpper r \<noteq> Max \<and> getLower other \<noteq> Min \<and> getLower other \<noteq> 0
                then APInt_sdiv (getUpper r) (getLower other) else Max);
          uu = (if getUpper r \<noteq> Max \<and> getUpper other \<noteq> Max \<and> getUpper other \<noteq> 0
                then APInt_sdiv (getUpper r) (getUpper other) else Max);
          l = (if slt ll lu then ll else lu);
          u = (if sgt uu ul then uu else ul)
      in Range l u Regular)"

text \<open>
  The four corner values and their combination, shared by every operation from
  \<open>urem\<close> on: \<open>ll\<close> and \<open>lu\<close> start at \<open>Min\<close>, \<open>ul\<close> and \<open>uu\<close> at \<open>Max\<close>, and a corner is
  computed only when neither of its operands is the matching sentinel.
\<close>

definition corners :: "('a::len word \<Rightarrow> 'a word \<Rightarrow> 'a word) \<Rightarrow> 'a word Range \<Rightarrow> 'a word Range \<Rightarrow> 'a word Range" where
  "corners f r other =
     (let ll = (if getLower r \<noteq> Min \<and> getLower other \<noteq> Min
                then f (getLower r) (getLower other) else Min);
          lu = (if getLower r \<noteq> Min \<and> getUpper other \<noteq> Max
                then f (getLower r) (getUpper other) else Min);
          ul = (if getUpper r \<noteq> Max \<and> getLower other \<noteq> Min
                then f (getUpper r) (getLower other) else Max);
          uu = (if getUpper r \<noteq> Max \<and> getUpper other \<noteq> Max
                then f (getUpper r) (getUpper other) else Max);
          l = (if slt ll lu then ll else lu);
          u = (if sgt uu ul then uu else ul)
      in Range l u Regular)"

definition Range_urem :: "'a::len word Range \<Rightarrow> 'a word Range \<Rightarrow> 'a word Range" where
  "Range_urem r other =
     (if getLower other = Zero \<or> getUpper other = Zero then Range Min Max Regular
      else corners APInt_urem r other)"

definition Range_srem :: "'a::len word Range \<Rightarrow> 'a word Range \<Rightarrow> 'a word Range" where
  "Range_srem r other =
     (if getLower other = Zero \<or> getUpper other = Zero then Range Min Max Regular
      else if Range_eq other (Range Zero Zero Regular) \<or> Range_eq other (Range Min Max Empty)
      then Range Min Max Empty
      else if (slt (getLower other) Zero \<and> sgt (getUpper other) Zero)
              \<or> getLower other = Zero \<or> getUpper other = Zero
      then Range Min Max Regular
      else corners APInt_srem r other)"

subsection \<open>Shifts and bitwise operations\<close>

definition Range_shl :: "'a::len word Range \<Rightarrow> 'a word Range \<Rightarrow> 'a word Range" where
  "Range_shl r other = corners APInt_shl r other"

definition Range_lshr :: "'a::len word Range \<Rightarrow> 'a word Range \<Rightarrow> 'a word Range" where
  "Range_lshr r other =
     (if isNegative (getLower r) \<or> isNegative (getUpper r) then Range Zero Max Regular
      else corners APInt_lshr r other)"

definition Range_ashr :: "'a::len word Range \<Rightarrow> 'a word Range \<Rightarrow> 'a word Range" where
  "Range_ashr r other = corners APInt_ashr r other"

definition Range_And :: "'a::len word Range \<Rightarrow> 'a word Range \<Rightarrow> 'a word Range" where
  "Range_And r other = corners APInt_And r other"

definition Range_Or :: "'a::len word Range \<Rightarrow> 'a word Range \<Rightarrow> 'a word Range" where
  "Range_Or r other =
     (if isUnknown r \<or> isUnknown other then Range Min Max Unknown
      else corners APInt_Or r other)"

definition Range_Xor :: "'a::len word Range \<Rightarrow> 'a word Range \<Rightarrow> 'a word Range" where
  "Range_Xor r other = corners APInt_Xor r other"

subsection \<open>Casts\<close>

text \<open>
  \<open>APInt::getSignedMaxValue(bitwidth)\<close> and \<open>APInt::getSignedMinValue(bitwidth)\<close>,
  sign-extended to the analysis width when \<open>bitwidth\<close> is smaller. No value is wider than
  \<open>MAX_BIT_INT\<close>, the maximum over all of them.
\<close>

definition maxupper :: "nat \<Rightarrow> 'a::len word" where
  "maxupper bitwidth = (if bitwidth < LENGTH('a) then mask (bitwidth - 1) else Max)"

definition maxlower :: "nat \<Rightarrow> 'a::len word" where
  "maxlower bitwidth = (if bitwidth < LENGTH('a) then NOT (mask (bitwidth - 1)) else Min)"

definition Range_truncate :: "'a::len word Range \<Rightarrow> nat \<Rightarrow> 'a word Range" where
  "Range_truncate r bitwidth =
     (if sge (getLower r) (maxlower bitwidth) \<and> sle (getUpper r) (maxupper bitwidth) then r
      else Range (maxlower bitwidth) (maxupper bitwidth) Regular)"

definition Range_sextOrTrunc :: "'a::len word Range \<Rightarrow> nat \<Rightarrow> 'a word Range" where
  "Range_sextOrTrunc r bitwidth = Range_truncate r bitwidth"

definition Range_zextOrTrunc :: "'a::len word Range \<Rightarrow> nat \<Rightarrow> 'a word Range" where
  "Range_zextOrTrunc r bitwidth = Range (maxlower bitwidth) (maxupper bitwidth) Regular"

subsection \<open>Meet and join\<close>

definition intersectWith :: "'a::len word Range \<Rightarrow> 'a word Range \<Rightarrow> 'a word Range" where
  "intersectWith r other =
     (if isEmpty r \<or> isEmpty other then Range Min Max Empty
      else if isUnknown r then other
      else if isUnknown other then r
      else
        let l = (if sgt (getLower r) (getLower other) then getLower r else getLower other);
            u = (if slt (getUpper r) (getUpper other) then getUpper r else getUpper other)
        in Range l u Regular)"

definition unionWith :: "'a::len word Range \<Rightarrow> 'a word Range \<Rightarrow> 'a word Range" where
  "unionWith r other =
     (if isEmpty r then other
      else if isEmpty other then r
      else if isUnknown r then other
      else if isUnknown other then r
      else
        let l = (if slt (getLower r) (getLower other) then getLower r else getLower other);
            u = (if sgt (getUpper r) (getUpper other) then getUpper r else getUpper other)
        in Range l u Regular)"

section \<open>Values of the intermediate representation\<close>

text \<open>
  The analysis reads an IR value through a narrow interface: its identity, whether it is
  a \<open>ConstantInt\<close> (and then its \<open>APInt\<close>), and the size in bits of its type. A constant
  is identified by its type and value, any other value by an identifier. The \<open>APInt\<close> of a
  constant is given by its width and its signed value.
\<close>

datatype Value = ConstantInt nat int | Variable nat nat

fun getPrimitiveSizeInBits :: "Value \<Rightarrow> nat" where
  "getPrimitiveSizeInBits (ConstantInt bw c) = bw"
| "getPrimitiveSizeInBits (Variable i bw) = bw"

datatype Opcode =
    PHI | Add | Sub | Mul | UDiv | SDiv | URem | SRem | Shl | LShr | AShr | And | Or | Xor
  | Trunc | ZExt | SExt | Load | Store | OtherOpcode

datatype Predicate = ICMP_EQ | ICMP_SLE | ICMP_SLT | ICMP_SGE | ICMP_SGT | ICMP_OTHER

text \<open>
  An instruction is a value with an opcode, operands and the basic block that holds it.
  \<open>getOperand\<close> outside the operand list is an error of the model.
\<close>

record Instruction =
  inst_value :: Value
  inst_opcode :: Opcode
  inst_operands :: "Value list"
  inst_parent :: nat

datatype error = KeyNotFound | OutOfBounds

definition getOperand :: "Instruction \<Rightarrow> nat \<Rightarrow> error + Value" where
  "getOperand I k =
     (if k < length (inst_operands I) then Inr (inst_operands I ! k) else Inl OutOfBounds)"

section \<open>Nodes and operations of the constraint graph\<close>

text \<open>
  A \<open>VarNode\<close> holds the value it stands for, its current interval and the abstract state
  that the crop analysis stores; the constructor leaves the abstract state unset.
\<close>

record 'w VarNode =
  nodeV :: Value
  interval :: "'w Range"
  abstractState :: "char option"

definition VarNode_ctor :: "Value \<Rightarrow> 'a::len word VarNode" where
  "VarNode_ctor v = \<lparr>nodeV = v, interval = Range Min Max Unknown, abstractState = None\<rparr>"

text \<open>
  \<open>VarNode::init\<close>. The \<open>APInt\<close> of a constant narrower than \<open>MAX_BIT_INT\<close> is sign-extended
  to it: the result is the word with the same signed value.
\<close>

definition VarNode_init :: "'a::len word VarNode \<Rightarrow> bool \<Rightarrow> 'a word VarNode" where
  "VarNode_init n outside =
     (case nodeV n of
        ConstantInt bw c \<Rightarrow> (let tmp = word_of_int c in n\<lparr>interval := Range tmp tmp Regular\<rparr>)
      | Variable i bw \<Rightarrow>
          (if \<not> outside then n\<lparr>interval := Range Min Max Unknown\<rparr>
           else n\<lparr>interval := Range Min Max Regular\<rparr>))"

text \<open>
  \<open>VarNode::storeAbstractState\<close>, which the crop analysis calls on the nodes of a component.
  The source asserts first that the interval is not Unknown; the assertion is left out, so
  the function is defined on every node.
\<close>

definition storeAbstractState :: "'a::len word VarNode \<Rightarrow> 'a word VarNode" where
  "storeAbstractState n =
     n\<lparr>abstractState :=
         Some (if getLower (interval n) = Min
               then (if getUpper (interval n) = Max then CHR ''?'' else CHR ''-'')
               else if getUpper (interval n) = Max then CHR ''+''
               else CHR ''0'')\<rparr>"

text \<open>
  A \<open>BasicInterval\<close> is a range; a \<open>SymbInterval\<close> adds the bound value and the predicate.
\<close>

datatype 'w BasicInterval =
    BasicInterval (getRange: "'w Range")
  | SymbInterval (getRange: "'w Range") (getBound: Value) (getOperation: Predicate)

text \<open>
  The operations. A sink or a source is a pointer to a \<open>VarNode\<close>: an address of
  the node store of the graph.
\<close>

datatype 'w BasicOp =
    UnaryOp (getIntersect: "'w BasicInterval") (getSink: nat) (getSource: nat) (getOpcode: Opcode)
  | SigmaOp (getIntersect: "'w BasicInterval") (getSink: nat) (getSource: nat) (getOpcode: Opcode)
      (isUnresolved: bool)
  | BinaryOp (getIntersect: "'w BasicInterval") (getSink: nat) (getSource1: nat) (getSource2: nat)
      (getOpcode: Opcode)
  | PhiOp (getIntersect: "'w BasicInterval") (getSink: nat) (getSources: "nat list")
      (getOpcode: Opcode)
  | ControlDep (getIntersect: "'w BasicInterval") (getSink: nat) (getSource: nat)

record 'w ValueBranchMap =
  getBBTrue :: nat
  getBBFalse :: nat
  getItvT :: "'w BasicInterval"
  getItvF :: "'w BasicInterval"

text \<open>
  The constraint graph. \<open>nodes\<close> and \<open>ops\<close> are the stores of the \<open>VarNode\<close> and
  \<open>BasicOp\<close> objects, by address; \<open>opCount\<close> is the next unused address of an operation, and
  the next unused address of a node is the number of entries of \<open>vars\<close>, since a node is
  allocated only when it is entered there. \<open>vars\<close> and \<open>symbMap\<close> list their entries, so
  that they can be iterated; the other maps are looked up only. A pointer set is a list
  without repetition, in the order of insertion.
\<close>

record 'w ConstraintGraph =
  nodes :: "nat \<Rightarrow> 'w VarNode"
  ops :: "nat \<Rightarrow> 'w BasicOp"
  opCount :: nat
  vars :: "(Value \<times> nat) list"
  oprs :: "nat list"
  defMap :: "Value \<rightharpoonup> nat"
  useMap :: "Value \<rightharpoonup> nat list"
  symbMap :: "(Value \<times> nat list) list"
  valuesBranchMap :: "Value \<rightharpoonup> 'w ValueBranchMap"
  valuesSwitchMap :: "Value \<rightharpoonup> ('w BasicInterval \<times> nat) list"

definition ConstraintGraph_ctor :: "'a::len word ConstraintGraph" where
  "ConstraintGraph_ctor =
     \<lparr>nodes = (\<lambda>a. undefined), ops = (\<lambda>a. undefined), opCount = 0, vars = [], oprs = [],
      defMap = Map.empty, useMap = Map.empty, symbMap = [],
      valuesBranchMap = Map.empty, valuesSwitchMap = Map.empty\<rparr>"

text \<open>Insertion into a pointer set.\<close>

definition set_insert :: "'x \<Rightarrow> 'x list \<Rightarrow> 'x list" where
  "set_insert x xs = (if x \<in> set xs then xs else xs @ [x])"

definition VarNode_getRange :: "'a::len word ConstraintGraph \<Rightarrow> nat \<Rightarrow> 'a word Range" where
  "VarNode_getRange g a = interval (nodes g a)"

definition VarNode_getValue :: "'a::len word ConstraintGraph \<Rightarrow> nat \<Rightarrow> Value" where
  "VarNode_getValue g a = nodeV (nodes g a)"

definition VarNode_setRange ::
  "'a::len word ConstraintGraph \<Rightarrow> nat \<Rightarrow> 'a word Range \<Rightarrow> 'a word ConstraintGraph" where
  "VarNode_setRange g a r = g\<lparr>nodes := (nodes g)(a := (nodes g a)\<lparr>interval := r\<rparr>)\<rparr>"

subsection \<open>Evaluation of the operations\<close>

definition ControlDep_eval :: "'a::len word Range" where
  "ControlDep_eval = Range Min Max Regular"

definition UnaryOp_eval :: "'a::len word ConstraintGraph \<Rightarrow> 'a word BasicOp \<Rightarrow> 'a word Range" where
  "UnaryOp_eval g op =
     (let bw = getPrimitiveSizeInBits (VarNode_getValue g (getSink op));
          oprnd = VarNode_getRange g (getSource op);
          result =
            (if isRegular oprnd then
               (case getOpcode op of
                  Trunc \<Rightarrow> Range_truncate oprnd bw
                | ZExt \<Rightarrow> Range_zextOrTrunc oprnd bw
                | SExt \<Rightarrow> Range_sextOrTrunc oprnd bw
                | _ \<Rightarrow> oprnd)
             else if isEmpty oprnd then Range Min Max Empty
             else Range Min Max Unknown)
      in if \<not> isMaxRange (getRange (getIntersect op))
         then intersectWith result (getRange (getIntersect op))
         else result)"

definition SigmaOp_eval :: "'a::len word ConstraintGraph \<Rightarrow> 'a word BasicOp \<Rightarrow> 'a word Range" where
  "SigmaOp_eval g op =
     intersectWith (VarNode_getRange g (getSource op)) (getRange (getIntersect op))"

text \<open>The switch of \<open>BinaryOp::eval\<close> over the opcode.\<close>

definition BinaryOp_apply :: "Opcode \<Rightarrow> 'a::len word Range \<Rightarrow> 'a word Range \<Rightarrow> 'a word Range" where
  "BinaryOp_apply opc op1 op2 =
     (case opc of
        Add \<Rightarrow> Range_add op1 op2
      | Sub \<Rightarrow> Range_sub op1 op2
      | Mul \<Rightarrow> Range_mul op1 op2
      | UDiv \<Rightarrow> Range_udiv op1 op2
      | SDiv \<Rightarrow> Range_sdiv op1 op2
      | URem \<Rightarrow> Range_urem op1 op2
      | SRem \<Rightarrow> Range_srem op1 op2
      | Shl \<Rightarrow> Range_shl op1 op2
      | LShr \<Rightarrow> Range_lshr op1 op2
      | AShr \<Rightarrow> Range_ashr op1 op2
      | And \<Rightarrow> Range_And op1 op2
      | Or \<Rightarrow> Range_Or op1 op2
      | Xor \<Rightarrow> Range_Xor op1 op2
      | _ \<Rightarrow> Range Min Max Unknown)"

definition BinaryOp_eval :: "'a::len word ConstraintGraph \<Rightarrow> 'a word BasicOp \<Rightarrow> 'a word Range" where
  "BinaryOp_eval g op =
     (let op1 = VarNode_getRange g (getSource1 op);
          op2 = VarNode_getRange g (getSource2 op)
      in if isRegular op1 \<and> isRegular op2 then
           (let result = BinaryOp_apply (getOpcode op) op1 op2;
                result = (if sgt (getLower result) (getUpper result)
                          then Range Min Max Regular else result);
                test = isMaxRange (getRange (getIntersect op))
            in if \<not> test then intersectWith result (getRange (getIntersect op)) else result)
         else if isEmpty op1 \<or> isEmpty op2 then Range Min Max Empty
         else Range Min Max Unknown)"

text \<open>
  \<open>PhiOp::eval\<close> starts from the range of source 0 and joins the ranges of the sources from
  the second one on. Reading source 0 of an empty source vector is outside the vector.
\<close>

fun PhiOp_loop ::
  "'a::len word ConstraintGraph \<Rightarrow> 'a word Range \<Rightarrow> nat list \<Rightarrow> 'a word Range" where
  "PhiOp_loop g result [] = result"
| "PhiOp_loop g result (s # sit) = PhiOp_loop g (unionWith result (VarNode_getRange g s)) sit"

definition PhiOp_eval ::
  "'a::len word ConstraintGraph \<Rightarrow> 'a word BasicOp \<Rightarrow> error + 'a word Range" where
  "PhiOp_eval g op =
     (case getSources op of
        [] \<Rightarrow> Inl OutOfBounds
      | s0 # rest \<Rightarrow> Inr (PhiOp_loop g (VarNode_getRange g s0) rest))"

text \<open>The virtual call \<open>op->eval()\<close>.\<close>

definition eval :: "'a::len word ConstraintGraph \<Rightarrow> 'a word BasicOp \<Rightarrow> error + 'a word Range" where
  "eval g op =
     (case op of
        UnaryOp i s src opc \<Rightarrow> Inr (UnaryOp_eval g op)
      | SigmaOp i s src opc u \<Rightarrow> Inr (SigmaOp_eval g op)
      | BinaryOp i s s1 s2 opc \<Rightarrow> Inr (BinaryOp_eval g op)
      | PhiOp i s srcs opc \<Rightarrow> PhiOp_eval g op
      | ControlDep i s src \<Rightarrow> Inr ControlDep_eval)"

subsection \<open>Building the graph\<close>

text \<open>
  \<open>ConstraintGraph::getRange\<close>: the lookup in \<open>vars\<close> is commented out in the source, and
  what is left returns the Unknown interval.
\<close>

definition ConstraintGraph_getRange :: "'a::len word ConstraintGraph \<Rightarrow> Value \<Rightarrow> 'a word Range" where
  "ConstraintGraph_getRange g v = Range Min Max Unknown"

text \<open>\<open>addVarNode\<close> returns the graph and the address of the node of the value.\<close>

definition addVarNode ::
  "'a::len word ConstraintGraph \<Rightarrow> Value \<Rightarrow> 'a word ConstraintGraph \<times> nat" where
  "addVarNode g v =
     (case map_of (vars g) v of
        Some node \<Rightarrow> (g, node)
      | None \<Rightarrow>
          (let node = length (vars g);
               g1 = g\<lparr>nodes := (nodes g)(node := VarNode_ctor v), vars := vars g @ [(v, node)]\<rparr>;
               g2 = g1\<lparr>useMap := (case useMap g1 v of
                                      None \<Rightarrow> (useMap g1)(v \<mapsto> [])
                                    | Some useList \<Rightarrow> useMap g1)\<rparr>
           in (g2, node)))"

text \<open>\<open>new\<close> of an operation: the object is stored at the next unused address.\<close>

definition new_op ::
  "'a::len word ConstraintGraph \<Rightarrow> 'a word BasicOp \<Rightarrow> 'a word ConstraintGraph \<times> nat" where
  "new_op g op = (g\<lparr>ops := (ops g)(opCount g := op), opCount := Suc (opCount g)\<rparr>, opCount g)"

text \<open>\<open>useMap.find(v)->second.insert(op)\<close>: the entry is not tested against \<open>end()\<close>.\<close>

definition useMap_insert ::
  "'a::len word ConstraintGraph \<Rightarrow> Value \<Rightarrow> nat \<Rightarrow> error + 'a word ConstraintGraph" where
  "useMap_insert g v op =
     (case useMap g v of
        None \<Rightarrow> Inl KeyNotFound
      | Some useList \<Rightarrow> Inr (g\<lparr>useMap := (useMap g)(v \<mapsto> set_insert op useList)\<rparr>))"

definition MaxInterval :: "'a::len word BasicInterval" where
  "MaxInterval = BasicInterval (Range Min Max Regular)"

definition addUnaryOp ::
  "'a::len word ConstraintGraph \<Rightarrow> Instruction \<Rightarrow> error + 'a word ConstraintGraph" where
  "addUnaryOp g I =
     (let (g1, sink) = addVarNode g (inst_value I) in
      if inst_opcode I \<in> {Store, Load, Trunc, ZExt, SExt} then
        (case getOperand I (if inst_opcode I = Store then 1 else 0) of
           Inl e \<Rightarrow> Inl e
         | Inr operand \<Rightarrow>
             (let (g2, source) = addVarNode g1 operand;
                  (g3, UOp) = new_op g2 (UnaryOp MaxInterval sink source (inst_opcode I));
                  g4 = g3\<lparr>oprs := set_insert UOp (oprs g3)\<rparr>;
                  g5 = g4\<lparr>defMap := (defMap g4)(VarNode_getValue g4 sink \<mapsto> UOp)\<rparr>
              in useMap_insert g5 (VarNode_getValue g5 source) UOp))
      else Inr g1)"

definition addBinaryOp ::
  "'a::len word ConstraintGraph \<Rightarrow> Instruction \<Rightarrow> error + 'a word ConstraintGraph" where
  "addBinaryOp g I =
     (let (g1, sink) = addVarNode g (inst_value I) in
      case getOperand I 0 of
        Inl e \<Rightarrow> Inl e
      | Inr operand0 \<Rightarrow>
          (let (g2, source1) = addVarNode g1 operand0 in
           case getOperand I 1 of
             Inl e \<Rightarrow> Inl e
           | Inr operand1 \<Rightarrow>
               (let (g3, source2) = addVarNode g2 operand1;
                    (g4, BOp) = new_op g3 (BinaryOp MaxInterval sink source1 source2 (inst_opcode I));
                    g5 = g4\<lparr>oprs := set_insert BOp (oprs g4)\<rparr>;
                    g6 = g5\<lparr>defMap := (defMap g5)(VarNode_getValue g5 sink \<mapsto> BOp)\<rparr>
                in case useMap_insert g6 (VarNode_getValue g6 source1) BOp of
                     Inl e \<Rightarrow> Inl e
                   | Inr g7 \<Rightarrow> useMap_insert g7 (VarNode_getValue g7 source2) BOp)))"

text \<open>\<open>PhiOp::addSource\<close> on the operation stored at an address.\<close>

definition addSource :: "'a::len word ConstraintGraph \<Rightarrow> nat \<Rightarrow> nat \<Rightarrow> 'a word ConstraintGraph" where
  "addSource g phi newsrc =
     (case ops g phi of
        PhiOp i s srcs opc \<Rightarrow> g\<lparr>ops := (ops g)(phi := PhiOp i s (srcs @ [newsrc]) opc)\<rparr>
      | _ \<Rightarrow> g)"

fun addPhiOp_loop ::
  "'a::len word ConstraintGraph \<Rightarrow> nat \<Rightarrow> Value list \<Rightarrow> error + 'a word ConstraintGraph" where
  "addPhiOp_loop g phiOp [] = Inr g"
| "addPhiOp_loop g phiOp (operand # it) =
     (let (g1, source) = addVarNode g operand;
          g2 = addSource g1 phiOp source
      in case useMap_insert g2 (VarNode_getValue g2 source) phiOp of
           Inl e \<Rightarrow> Inl e
         | Inr g3 \<Rightarrow> addPhiOp_loop g3 phiOp it)"

definition addPhiOp ::
  "'a::len word ConstraintGraph \<Rightarrow> Instruction \<Rightarrow> error + 'a word ConstraintGraph" where
  "addPhiOp g Phi =
     (let (g1, sink) = addVarNode g (inst_value Phi);
          (g2, phiOp) = new_op g1 (PhiOp MaxInterval sink [] (inst_opcode Phi));
          g3 = g2\<lparr>oprs := set_insert phiOp (oprs g2)\<rparr>;
          g4 = g3\<lparr>defMap := (defMap g3)(VarNode_getValue g3 sink \<mapsto> phiOp)\<rparr>
      in addPhiOp_loop g4 phiOp (inst_operands Phi))"

text \<open>The search of \<open>addSigmaOp\<close> through the cases of a switch for the block of the sigma.\<close>

fun switch_case :: "('w BasicInterval \<times> nat) list \<Rightarrow> nat \<Rightarrow> 'w BasicInterval option" where
  "switch_case [] thisbb = None"
| "switch_case ((itv, bb) # cases) thisbb =
     (if bb = thisbb then Some itv else switch_case cases thisbb)"

text \<open>
  The loop of \<open>addSigmaOp\<close> over the operands; \<open>BItv\<close> is declared outside the loop and
  keeps its value from one operand to the next.
\<close>

fun addSigmaOp_loop ::
  "'a::len word ConstraintGraph \<Rightarrow> Instruction \<Rightarrow> nat \<Rightarrow> 'a word BasicInterval option \<Rightarrow>
   Value list \<Rightarrow> error + 'a word ConstraintGraph" where
  "addSigmaOp_loop g sigma sink BItv [] = Inr g"
| "addSigmaOp_loop g sigma sink BItv (operand # it) =
     (let (g1, source) = addVarNode g operand;
          thisbb = inst_parent sigma
      in case (case valuesBranchMap g1 operand of
                 Some VBM \<Rightarrow>
                   Some (if thisbb = getBBTrue VBM then Some (getItvT VBM)
                         else if thisbb = getBBFalse VBM then Some (getItvF VBM)
                         else BItv)
               | None \<Rightarrow>
                   (case valuesSwitchMap g1 operand of
                      None \<Rightarrow> None
                    | Some VSM \<Rightarrow>
                        Some (case switch_case VSM thisbb of Some itv \<Rightarrow> Some itv | None \<Rightarrow> BItv))) of
           None \<Rightarrow> addSigmaOp_loop g1 sigma sink BItv it
         | Some BItv1 \<Rightarrow>
             (let (g2, sigmaOp) =
                    new_op g1 (SigmaOp (case BItv1 of None \<Rightarrow> MaxInterval | Some itv \<Rightarrow> itv)
                                 sink source (inst_opcode sigma) False);
                  g3 = g2\<lparr>oprs := set_insert sigmaOp (oprs g2)\<rparr>;
                  g4 = g3\<lparr>defMap := (defMap g3)(VarNode_getValue g3 sink \<mapsto> sigmaOp)\<rparr>
              in case useMap_insert g4 (VarNode_getValue g4 source) sigmaOp of
                   Inl e \<Rightarrow> Inl e
                 | Inr g5 \<Rightarrow> addSigmaOp_loop g5 sigma sink BItv1 it))"

definition addSigmaOp ::
  "'a::len word ConstraintGraph \<Rightarrow> Instruction \<Rightarrow> error + 'a word ConstraintGraph" where
  "addSigmaOp g sigma =
     (let (g1, sink) = addVarNode g (inst_value sigma)
      in addSigmaOp_loop g1 sigma sink None (inst_operands sigma))"

text \<open>
  \<open>buildVarNodes\<close>: every node of \<open>vars\<close> is initialised; a value is outside when \<open>defMap\<close>
  has no entry for it.
\<close>

fun buildVarNodes_loop ::
  "'a::len word ConstraintGraph \<Rightarrow> (Value \<times> nat) list \<Rightarrow> 'a word ConstraintGraph" where
  "buildVarNodes_loop g [] = g"
| "buildVarNodes_loop g ((v, node) # bgn) =
     buildVarNodes_loop
       (g\<lparr>nodes := (nodes g)(node := VarNode_init (nodes g node) (defMap g v = None))\<rparr>) bgn"

definition buildVarNodes :: "'a::len word ConstraintGraph \<Rightarrow> 'a word ConstraintGraph" where
  "buildVarNodes g = buildVarNodes_loop g (vars g)"

subsection \<open>Matching of parameters and return values\<close>

text \<open>
  What the matcher reads of a function: its formal parameters, whether its return type is
  \<open>void\<close>, the operands of its return instructions, and its uses. A use is a block
  address, a call or invoke (with the call instruction, its arguments and whether the
  function is the callee of it), or anything else. A call of which the function is the
  callee passes one argument for each parameter; functions with a variable number of
  arguments are not matched.
\<close>

datatype User = BlockAddressUser | CallUser Value "Value list" bool | OtherUser

record Function =
  fun_args :: "Value list"
  fun_returnsVoid :: bool
  fun_returnValues :: "Value list"
  fun_uses :: "User list"

text \<open>The loop that creates one \<open>PhiOp\<close> without sources for each formal parameter.\<close>

fun match_formals ::
  "'a::len word ConstraintGraph \<Rightarrow> Value list \<Rightarrow> 'a word ConstraintGraph \<times> nat list" where
  "match_formals g [] = (g, [])"
| "match_formals g (param # ps) =
     (let (g1, sink) = addVarNode g param;
          (g2, matcher) = new_op g1 (PhiOp MaxInterval sink [] PHI);
          g3 = g2\<lparr>oprs := set_insert matcher (oprs g2)\<rparr>;
          g4 = g3\<lparr>defMap := (defMap g3)(VarNode_getValue g3 sink \<mapsto> matcher)\<rparr>;
          (g5, matchers) = match_formals g4 ps
      in (g5, matcher # matchers))"

fun match_returnvars ::
  "'a::len word ConstraintGraph \<Rightarrow> Value list \<Rightarrow> 'a word ConstraintGraph \<times> nat list" where
  "match_returnvars g [] = (g, [])"
| "match_returnvars g (ri # rs) =
     (let (g1, from) = addVarNode g ri;
          (g2, returnvars) = match_returnvars g1 rs
      in (g2, from # returnvars))"

fun match_actuals ::
  "'a::len word ConstraintGraph \<Rightarrow> (nat \<times> Value) list \<Rightarrow> error + 'a word ConstraintGraph" where
  "match_actuals g [] = Inr g"
| "match_actuals g ((matcher, actual) # rest) =
     (let (g1, from) = addVarNode g actual;
          g2 = addSource g1 matcher from
      in case useMap_insert g2 (VarNode_getValue g2 from) matcher of
           Inl e \<Rightarrow> Inl e
         | Inr g3 \<Rightarrow> match_actuals g3 rest)"

fun match_return_sources ::
  "'a::len word ConstraintGraph \<Rightarrow> nat \<Rightarrow> nat list \<Rightarrow> error + 'a word ConstraintGraph" where
  "match_return_sources g phiOp [] = Inr g"
| "match_return_sources g phiOp (var # vit) =
     (let g1 = addSource g phiOp var
      in case useMap_insert g1 (VarNode_getValue g1 var) phiOp of
           Inl e \<Rightarrow> Inl e
         | Inr g2 \<Rightarrow> match_return_sources g2 phiOp vit)"

fun match_uses ::
  "'a::len word ConstraintGraph \<Rightarrow> bool \<Rightarrow> nat list \<Rightarrow> nat list \<Rightarrow> User list \<Rightarrow>
   error + 'a word ConstraintGraph" where
  "match_uses g noReturn matchers returnvars [] = Inr g"
| "match_uses g noReturn matchers returnvars (BlockAddressUser # UI) =
     match_uses g noReturn matchers returnvars UI"
| "match_uses g noReturn matchers returnvars (OtherUser # UI) =
     match_uses g noReturn matchers returnvars UI"
| "match_uses g noReturn matchers returnvars (CallUser caller actuals isCallee # UI) =
     (if \<not> isCallee then match_uses g noReturn matchers returnvars UI
      else
        case match_actuals g (zip matchers actuals) of
          Inl e \<Rightarrow> Inl e
        | Inr g1 \<Rightarrow>
            (if \<not> noReturn then
               (let (g2, to) = addVarNode g1 caller;
                    (g3, phiOp) = new_op g2 (PhiOp MaxInterval to [] PHI);
                    g4 = g3\<lparr>oprs := set_insert phiOp (oprs g3)\<rparr>;
                    g5 = g4\<lparr>defMap := (defMap g4)(VarNode_getValue g4 to \<mapsto> phiOp)\<rparr>
                in case match_return_sources g5 phiOp returnvars of
                     Inl e \<Rightarrow> Inl e
                   | Inr g6 \<Rightarrow> match_uses g6 noReturn matchers returnvars UI)
             else match_uses g1 noReturn matchers returnvars UI))"

definition MatchParametersAndReturnValues ::
  "Function \<Rightarrow> 'a::len word ConstraintGraph \<Rightarrow> error + 'a word ConstraintGraph" where
  "MatchParametersAndReturnValues F G =
     (if fun_uses F = [] then Inr G
      else
        let noReturn = fun_returnsVoid F;
            ReturnValues = (if \<not> noReturn then remdups (fun_returnValues F) else []);
            (G1, matchers) = match_formals G (fun_args F);
            (G2, returnvars) = match_returnvars G1 ReturnValues
        in match_uses G2 noReturn matchers returnvars (fun_uses F))"

subsection \<open>The maps of the solver\<close>

text \<open>\<open>buildSymbolicIntersectMap\<close>: the unary operations with a symbolic intersect, by bound.\<close>

fun symbMap_insert :: "(Value \<times> nat list) list \<Rightarrow> Value \<Rightarrow> nat \<Rightarrow> (Value \<times> nat list) list" where
  "symbMap_insert [] v uop = [(v, [uop])]"
| "symbMap_insert ((k, l) # m) v uop =
     (if k = v then (k, set_insert uop l) # m else (k, l) # symbMap_insert m v uop)"

fun buildSymbolicIntersectMap_loop ::
  "'a::len word ConstraintGraph \<Rightarrow> nat list \<Rightarrow> 'a word ConstraintGraph" where
  "buildSymbolicIntersectMap_loop g [] = g"
| "buildSymbolicIntersectMap_loop g (op # oit) =
     buildSymbolicIntersectMap_loop
       (case ops g op of
          UnaryOp (SymbInterval r b p) s src opc \<Rightarrow> g\<lparr>symbMap := symbMap_insert (symbMap g) b op\<rparr>
        | SigmaOp (SymbInterval r b p) s src opc u \<Rightarrow> g\<lparr>symbMap := symbMap_insert (symbMap g) b op\<rparr>
        | _ \<Rightarrow> g) oit"

definition buildSymbolicIntersectMap :: "'a::len word ConstraintGraph \<Rightarrow> 'a word ConstraintGraph" where
  "buildSymbolicIntersectMap g = buildSymbolicIntersectMap_loop (g\<lparr>symbMap := []\<rparr>) (oprs g)"

text \<open>
  The control dependence edges of the SCC finder. \<open>vars->find(bound)->second\<close> is not
  tested against \<open>end()\<close>; \<open>(*useMap)[bound]\<close> creates the entry when there is none.
\<close>

fun addControlDependenceEdges_ops ::
  "'a::len word ConstraintGraph \<Rightarrow> Value \<Rightarrow> nat list \<Rightarrow> error + 'a word ConstraintGraph" where
  "addControlDependenceEdges_ops g bound [] = Inr g"
| "addControlDependenceEdges_ops g bound (op # opit) =
     (case map_of (vars g) bound of
        None \<Rightarrow> Inl KeyNotFound
      | Some source \<Rightarrow>
          (let (g1, cdedge) = new_op g (ControlDep MaxInterval (getSink (ops g op)) source);
               useList = (case useMap g1 bound of None \<Rightarrow> [] | Some l \<Rightarrow> l);
               g2 = g1\<lparr>useMap := (useMap g1)(bound \<mapsto> set_insert cdedge useList)\<rparr>
           in addControlDependenceEdges_ops g2 bound opit))"

fun addControlDependenceEdges_loop ::
  "'a::len word ConstraintGraph \<Rightarrow> (Value \<times> nat list) list \<Rightarrow> error + 'a word ConstraintGraph" where
  "addControlDependenceEdges_loop g [] = Inr g"
| "addControlDependenceEdges_loop g ((bound, l) # sit) =
     (case addControlDependenceEdges_ops g bound l of
        Inl e \<Rightarrow> Inl e
      | Inr g1 \<Rightarrow> addControlDependenceEdges_loop g1 sit)"

definition addControlDependenceEdges ::
  "'a::len word ConstraintGraph \<Rightarrow> error + 'a word ConstraintGraph" where
  "addControlDependenceEdges g = addControlDependenceEdges_loop g (symbMap g)"

definition isControlDep :: "'w BasicOp \<Rightarrow> bool" where
  "isControlDep op = (case op of ControlDep i s src \<Rightarrow> True | _ \<Rightarrow> False)"

text \<open>\<open>delControlDependenceEdges\<close> erases the control dependence edges from every use list.\<close>

definition delControlDependenceEdges :: "'a::len word ConstraintGraph \<Rightarrow> 'a word ConstraintGraph" where
  "delControlDependenceEdges g =
     g\<lparr>useMap := (\<lambda>v. map_option (filter (\<lambda>op. \<not> isControlDep (ops g op))) (useMap g v))\<rparr>"

text \<open>
  \<open>buildUseMap\<close>: the use map of a component. \<open>compUseMap[V]\<close> creates the entry of \<open>V\<close>;
  \<open>useMap.find(V)\<close> is not tested against \<open>end()\<close>.
\<close>

fun buildUseMap_ops ::
  "'a::len word ConstraintGraph \<Rightarrow> nat list \<Rightarrow> nat list \<Rightarrow> nat list \<Rightarrow> nat list" where
  "buildUseMap_ops g component list [] = list"
| "buildUseMap_ops g component list (op # opit) =
     buildUseMap_ops g component
       (if getSink (ops g op) \<in> set component then set_insert op list else list) opit"

fun buildUseMap_loop ::
  "'a::len word ConstraintGraph \<Rightarrow> nat list \<Rightarrow> (Value \<rightharpoonup> nat list) \<Rightarrow> nat list \<Rightarrow>
   error + (Value \<rightharpoonup> nat list)" where
  "buildUseMap_loop g component compUseMap [] = Inr compUseMap"
| "buildUseMap_loop g component compUseMap (var # vit) =
     (let V = VarNode_getValue g var;
          list = (case compUseMap V of None \<Rightarrow> [] | Some l \<Rightarrow> l)
      in case useMap g V of
           None \<Rightarrow> Inl KeyNotFound
         | Some p \<Rightarrow>
             buildUseMap_loop g component
               (compUseMap(V \<mapsto> buildUseMap_ops g component list p)) vit)"

definition buildUseMap ::
  "'a::len word ConstraintGraph \<Rightarrow> nat list \<Rightarrow> error + (Value \<rightharpoonup> nat list)" where
  "buildUseMap g component = buildUseMap_loop g component Map.empty component"

text \<open>
  \<open>propagateToNextSCC\<close>: every operation that uses a value of the component is evaluated
  once and its sink is set; a sigma whose intersect is Unknown is marked unresolved.
\<close>

definition markUnresolved :: "'a::len word ConstraintGraph \<Rightarrow> nat \<Rightarrow> 'a word ConstraintGraph" where
  "markUnresolved g op =
     (case ops g op of
        SigmaOp i s src opc u \<Rightarrow> g\<lparr>ops := (ops g)(op := SigmaOp i s src opc True)\<rparr>
      | _ \<Rightarrow> g)"

fun propagateToNextSCC_ops ::
  "'a::len word ConstraintGraph \<Rightarrow> nat list \<Rightarrow> error + 'a word ConstraintGraph" where
  "propagateToNextSCC_ops g [] = Inr g"
| "propagateToNextSCC_ops g (op # sit) =
     (case eval g (ops g op) of
        Inl e \<Rightarrow> Inl e
      | Inr r \<Rightarrow>
          (let g1 = VarNode_setRange g (getSink (ops g op)) r;
               g2 = (case ops g1 op of
                       SigmaOp i s src opc u \<Rightarrow>
                         (if isUnknown (getRange i) then markUnresolved g1 op else g1)
                     | _ \<Rightarrow> g1)
           in propagateToNextSCC_ops g2 sit))"

fun propagateToNextSCC ::
  "'a::len word ConstraintGraph \<Rightarrow> nat list \<Rightarrow> error + 'a word ConstraintGraph" where
  "propagateToNextSCC g [] = Inr g"
| "propagateToNextSCC g (var # cit) =
     (case useMap g (VarNode_getValue g var) of
        None \<Rightarrow> Inl KeyNotFound
      | Some p \<Rightarrow>
          (case propagateToNextSCC_ops g p of
             Inl e \<Rightarrow> Inl e
           | Inr g1 \<Rightarrow> propagateToNextSCC g1 cit))"

subsection \<open>The bounded iteration before widening\<close>

text \<open>\<open>Meet::fixed\<close>: the sink takes the evaluated interval; the result tells whether it changed.\<close>

definition Meet_fixed ::
  "'a::len word ConstraintGraph \<Rightarrow> nat \<Rightarrow> error + 'a word ConstraintGraph \<times> bool" where
  "Meet_fixed g op =
     (let oldInterval = VarNode_getRange g (getSink (ops g op))
      in case eval g (ops g op) of
           Inl e \<Rightarrow> Inl e
         | Inr newInterval \<Rightarrow>
             Inr (VarNode_setRange g (getSink (ops g op)) newInterval,
                  Range_ne oldInterval newInterval))"

text \<open>
  \<open>ConstraintGraph::update(nIterations, compUseMap, actv)\<close>. The two nested loops are one
  recursion: \<open>L\<close> is what is left of the use list under iteration, \<open>actv\<close> the active set,
  of which \<open>*actv.begin()\<close> is the head. The source does not fix the order in which a
  pointer set is iterated; the order of insertion stands for it. The last argument counts
  the calls of \<open>Meet::fixed\<close> and is returned with the outcome.
\<close>

fun update_fixed ::
  "nat \<Rightarrow> (Value \<rightharpoonup> nat list) \<Rightarrow> nat list \<Rightarrow> Value list \<Rightarrow> 'a::len word ConstraintGraph \<Rightarrow> nat \<Rightarrow>
   nat \<times> (error + 'a word ConstraintGraph \<times> Value list)" where
  "update_fixed nIterations compUseMap (op # bgn) actv g evals =
     (if nIterations = 0 then (evals, Inr (g, []))
      else
        case Meet_fixed g op of
          Inl e \<Rightarrow> (Suc evals, Inl e)
        | Inr (g1, changed) \<Rightarrow>
            update_fixed (nIterations - 1) compUseMap bgn
              (if changed then set_insert (VarNode_getValue g1 (getSink (ops g1 op))) actv else actv)
              g1 (Suc evals))"
| "update_fixed nIterations compUseMap [] [] g evals = (evals, Inr (g, []))"
| "update_fixed nIterations compUseMap [] (V # actv) g evals =
     (case compUseMap V of
        None \<Rightarrow> (evals, Inl KeyNotFound)
      | Some L \<Rightarrow> update_fixed nIterations compUseMap L actv g evals)"

definition update ::
  "nat \<Rightarrow> (Value \<rightharpoonup> nat list) \<Rightarrow> Value list \<Rightarrow> 'a::len word ConstraintGraph \<Rightarrow>
   nat \<times> (error + 'a word ConstraintGraph \<times> Value list)" where
  "update nIterations compUseMap actv g = update_fixed nIterations compUseMap [] actv g 0"

text \<open>
  The first argument of the call in \<open>findIntervals\<close>:
  \<open>component.size()*2 | NUMBER_FIXED_ITERATIONS\<close>. The macro is defined in a header
  that is not part of the sources at hand and is a parameter here.
\<close>

definition fixed_iterations :: "nat \<Rightarrow> nat list \<Rightarrow> nat" where
  "fixed_iterations NUMBER_FIXED_ITERATIONS component =
     (length component * 2) OR NUMBER_FIXED_ITERATIONS"

section \<open>Containment of intervals\<close>

text \<open>
  The relation \<open>a \<subseteq> b\<close> of the specification on Regular intervals, for which the
  source has no function: the bounds of \<open>a\<close> lie between the bounds of \<open>b\<close> in the signed
  order.
\<close>

definition Range_subseteq :: "'a::len word Range \<Rightarrow> 'a word Range \<Rightarrow> bool" where
  "Range_subseteq a b = (sle (getLower b) (getLower a) \<and> sle (getUpper a) (getUpper b))"

text \<open>A bound computation is exact when it does not leave the signed range of the width.\<close>

definition add_exact :: "'a::len word \<Rightarrow> 'a word \<Rightarrow> bool" where
  "add_exact x y = (sint (x + y) = sint x + sint y)"

definition sub_exact :: "'a::len word \<Rightarrow> 'a word \<Rightarrow> bool" where
  "sub_exact x y = (sint (x - y) = sint x - sint y)"

section \<open>Well-formed graphs\<close>

text \<open>
  The invariant of the node maps: the nodes of \<open>vars\<close> have the addresses \<open>0, 1, \<dots>\<close> in
  the order of their creation, the node of a value holds that value, and every value of
  \<open>vars\<close> has a use list in \<open>useMap\<close>.
\<close>

definition graph_inv :: "'a::len word ConstraintGraph \<Rightarrow> bool" where
  "graph_inv g =
     (map snd (vars g) = [0..<length (vars g)]
      \<and> (\<forall>(v, a) \<in> set (vars g). VarNode_getValue g a = v)
      \<and> (\<forall>(v, a) \<in> set (vars g). useMap g v \<noteq> None))"

text \<open>
  A step that creates no node: \<open>vars\<close> and the value of every node are unchanged, and no
  use list is removed.
\<close>

definition same_nodes :: "'a::len word ConstraintGraph \<Rightarrow> 'a word ConstraintGraph \<Rightarrow> bool" where
  "same_nodes g g' =
     (vars g' = vars g
      \<and> (\<forall>a. VarNode_getValue g' a = VarNode_getValue g a)
      \<and> (\<forall>v. useMap g v \<noteq> None \<longrightarrow> useMap g' v \<noteq> None))"

text \<open>
  The outcome of a step of the builder is acceptable when it is a graph that satisfies the
  invariant, or an error other than a key that was not found.
\<close>

definition ok_result :: "error + 'a::len word ConstraintGraph \<Rightarrow> bool" where
  "ok_result r = (case r of Inl e \<Rightarrow> e \<noteq> KeyNotFound | Inr g \<Rightarrow> graph_inv g)"

text \<open>
  The graphs that the analysis can hold: the empty graph, and what the operations of the
  builder, of the matcher, of the SCC finder and of the solver make of such a graph.
  \<open>buildValueBranchMap\<close> and \<open>buildValueSwitchMap\<close> add nodes through \<open>addVarNode\<close> and
  fill the two maps of the branches and switches, whose contents are left open. The solver
  changes a graph by setting the interval or the abstract state of a node and by rewriting
  an operation in place (an intersect is fixed, a sigma is marked resolved or unresolved):
  any rewriting of the store of the operations is allowed. The SCC finder reads use lists
  with \<open>(*useMap)[V]\<close>, which creates an empty list for a value that has none.
\<close>

inductive reachable :: "'a::len word ConstraintGraph \<Rightarrow> bool" where
  r_ctor: "reachable ConstraintGraph_ctor"
| r_addVarNode: "reachable g \<Longrightarrow> reachable (fst (addVarNode g v))"
| r_valueMaps: "reachable g \<Longrightarrow> reachable (g\<lparr>valuesBranchMap := bm, valuesSwitchMap := sm\<rparr>)"
| r_addUnaryOp: "reachable g \<Longrightarrow> addUnaryOp g I = Inr g' \<Longrightarrow> reachable g'"
| r_addBinaryOp: "reachable g \<Longrightarrow> addBinaryOp g I = Inr g' \<Longrightarrow> reachable g'"
| r_addPhiOp: "reachable g \<Longrightarrow> addPhiOp g I = Inr g' \<Longrightarrow> reachable g'"
| r_addSigmaOp: "reachable g \<Longrightarrow> addSigmaOp g I = Inr g' \<Longrightarrow> reachable g'"
| r_match: "reachable g \<Longrightarrow> MatchParametersAndReturnValues F g = Inr g' \<Longrightarrow> reachable g'"
| r_buildVarNodes: "reachable g \<Longrightarrow> reachable (buildVarNodes g)"
| r_symbMap: "reachable g \<Longrightarrow> reachable (buildSymbolicIntersectMap g)"
| r_addControlDep: "reachable g \<Longrightarrow> addControlDependenceEdges g = Inr g' \<Longrightarrow> reachable g'"
| r_delControlDep: "reachable g \<Longrightarrow> reachable (delControlDependenceEdges g)"
| r_setRange: "reachable g \<Longrightarrow> reachable (VarNode_setRange g a r)"
| r_markUnresolved: "reachable g \<Longrightarrow> reachable (markUnresolved g op)"
| r_ops: "reachable g \<Longrightarrow> reachable (g\<lparr>ops := x\<rparr>)"
| r_storeAbstractState:
    "reachable g \<Longrightarrow> reachable (g\<lparr>nodes := (nodes g)(a := storeAbstractState (nodes g a))\<rparr>)"
| r_useList:
    "reachable g \<Longrightarrow> useMap g v = None \<Longrightarrow> reachable (g\<lparr>useMap := (useMap g)(v \<mapsto> [])\<rparr>)"
| r_update: "reachable g \<Longrightarrow> snd (update n compUseMap actv g) = Inr (g', actv') \<Longrightarrow> reachable g'"
| r_propagate: "reachable g \<Longrightarrow> propagateToNextSCC g component = Inr g' \<Longrightarrow> reachable g'"

text \<open>An operation can be evaluated unless it is a \<open>PhiOp\<close> without sources.\<close>

definition evaluable :: "'w BasicOp \<Rightarrow> bool" where
  "evaluable op = (case op of PhiOp i s srcs opc \<Rightarrow> srcs \<noteq> [] | _ \<Rightarrow> True)"

text \<open>
  What \<open>buildUseMap\<close> gives for a component: every value of the component has a use list,
  and the operations of the list have their sinks in the component.
\<close>

definition component_closed ::
  "'a::len word ConstraintGraph \<Rightarrow> (Value \<rightharpoonup> nat list) \<Rightarrow> nat list \<Rightarrow> bool" where
  "component_closed g compUseMap component =
     list_all (\<lambda>var. case compUseMap (VarNode_getValue g var) of
                        None \<Rightarrow> False
                      | Some L \<Rightarrow> list_all (\<lambda>op. getSink (ops g op) \<in> set component
                                                  \<and> evaluable (ops g op)) L) component"

text \<open>
  The bound computations that \<open>add\<close> and \<open>sub\<close> perform on two intervals are exact: a bound
  that is not set to its sentinel is computed without overflow.
\<close>

definition add_bounds_exact :: "'a::len word Range \<Rightarrow> 'a word Range \<Rightarrow> bool" where
  "add_bounds_exact r other =
     ((getLower r = Min \<or> getLower other = Min \<or> add_exact (getLower r) (getLower other))
      \<and> (getUpper r = Max \<or> getUpper other = Max \<or> add_exact (getUpper r) (getUpper other)))"

definition sub_bounds_exact :: "'a::len word Range \<Rightarrow> 'a word Range \<Rightarrow> bool" where
  "sub_bounds_exact r other =
     ((getLower r = Min \<or> getUpper other = Max \<or> sub_exact (getLower r) (getUpper other))
      \<and> (getUpper r = Max \<or> getLower other = Min \<or> sub_exact (getUpper r) (getLower other)))"

text \<open>
  Four Regular intervals with \<open>a \<subseteq> b\<close> and \<open>c \<subseteq> d\<close> at which an operation is not
  monotone.
\<close>

definition violates_monotonicity ::
  "('a::len word Range \<Rightarrow> 'a word Range \<Rightarrow> 'a word Range) \<Rightarrow>
   'a word Range \<Rightarrow> 'a word Range \<Rightarrow> 'a word Range \<Rightarrow> 'a word Range \<Rightarrow> bool" where
  "violates_monotonicity f a b c d =
     (isRegular a \<and> isRegular b \<and> isRegular c \<and> isRegular d
      \<and> Range_subseteq a b \<and> Range_subseteq c d \<and> \<not> Range_subseteq (f a c) (f b d))"

section \<open>A loop as an example\<close>

text \<open>
  The constraint graph of \<open>x = phi(0, y); y = x + 1\<close> at width 32, as the builder makes it:
  the nodes of \<open>x\<close>, \<open>0\<close>, \<open>y\<close> and \<open>1\<close> at the addresses 0 to 3, the \<open>PhiOp\<close> at address 0
  and the \<open>BinaryOp\<close> at address 1. The component of the loop is \<open>{x, y}\<close>.
\<close>

definition the_graph :: "error + 'a::len word ConstraintGraph \<Rightarrow> 'a word ConstraintGraph" where
  "the_graph r = (case r of Inl e \<Rightarrow> ConstraintGraph_ctor | Inr g \<Rightarrow> g)"

definition loop_phi :: Instruction where
  "loop_phi = \<lparr>inst_value = Variable 0 32, inst_opcode = PHI,
               inst_operands = [ConstantInt 32 0, Variable 1 32], inst_parent = 0\<rparr>"

definition loop_add :: Instruction where
  "loop_add = \<lparr>inst_value = Variable 1 32, inst_opcode = Add,
               inst_operands = [Variable 0 32, ConstantInt 32 1], inst_parent = 0\<rparr>"

definition loop_with_phi :: "32 word ConstraintGraph" where
  "loop_with_phi = the_graph (addPhiOp ConstraintGraph_ctor loop_phi)"

definition loop_built :: "32 word ConstraintGraph" where
  "loop_built = the_graph (addBinaryOp loop_with_phi loop_add)"

text \<open>
  The graph when the component of the loop is entered: the nodes are initialised and the
  two constants, each a component of its own, have been propagated.
\<close>

definition loop_after_zero :: "32 word ConstraintGraph" where
  "loop_after_zero = the_graph (propagateToNextSCC (buildVarNodes loop_built) [1])"

definition loop_entered :: "32 word ConstraintGraph" where
  "loop_entered = the_graph (propagateToNextSCC loop_after_zero [3])"

definition loop_component :: "nat list" where
  "loop_component = [0, 2]"

definition loop_compUseMap :: "Value \<rightharpoonup> nat list" where
  "loop_compUseMap =
     (case buildUseMap loop_entered loop_component of Inl e \<Rightarrow> Map.empty | Inr m \<Rightarrow> m)"

definition loop_entryPoints :: "Value list" where
  "loop_entryPoints = [Variable 0 32, Variable 1 32]"

text \<open>
  A function with one parameter whose only use is not a call (its address is taken), and
  a graph whose nodes all hold \<open>[0, 0]\<close>.
\<close>

definition address_taken :: Function where
  "address_taken = \<lparr>fun_args = [Variable 0 32], fun_returnsVoid = True, fun_returnValues = [],
                    fun_uses = [OtherUser]\<rparr>"

definition zeros :: "32 word ConstraintGraph" where
  "zeros = ConstraintGraph_ctor
     \<lparr>nodes := (\<lambda>a. \<lparr>nodeV = Variable a 32, interval = Range 0 0 Regular, abstractState = None\<rparr>)\<rparr>"

section \<open>Facts about the sentinels and the signed order\<close>

lemma stb_exp: "signed_take_bit n (2 ^ n :: int) = - (2 ^ n)"
  by (rule bit_eqI) (auto simp add: bit_simps simp flip: mask_eq_exp_minus_1)

lemma sint_Min: "sint (Min :: 'a::len word) = - (2 ^ (LENGTH('a) - 1))"
proof -
  have "(Min :: 'a word) = word_of_int (2 ^ (LENGTH('a) - 1))"
    by (simp add: Min_def)
  then have "sint (Min :: 'a word) = signed_take_bit (LENGTH('a) - 1) (2 ^ (LENGTH('a) - 1) :: int)"
    using sint_sbintrunc' [where ?'a = 'a, of "2 ^ (LENGTH('a) - 1)"] by simp
  then show ?thesis by (simp only: stb_exp)
qed

lemma sint_NOT: "sint (NOT x) = - sint x - 1" for x :: "'a::len word"
  by (metis bit.xor_one_right decr_eq_not_minus signed_minus_1 signed_xor_eq
    verit_minus_simplify(4))

lemma sint_Max: "sint (Max :: 'a::len word) = 2 ^ (LENGTH('a) - 1) - 1"
  by (simp add: Max_def sint_NOT sint_Min)

lemma Min_sle: "Min \<le>s (x :: 'a::len word)"
  using sint_ge [of x] by (simp add: word_sle_eq sint_Min)

lemma sle_Max: "(x :: 'a::len word) \<le>s Max"
  using sint_lt [of x] by (simp add: word_sle_eq sint_Max)

lemma not_slt_Min: "\<not> slt (x :: 'a::len word) Min"
  using Min_sle [of x] by (simp add: slt_def word_sless_alt word_sle_eq)

lemma not_sgt_Max: "\<not> sgt (x :: 'a::len word) Max"
  using sle_Max [of x] by (simp add: sgt_def word_sless_alt word_sle_eq)

lemma sint_inj: "sint x = sint y \<longleftrightarrow> x = y" for x y :: "'a::len word"
  by (auto intro: signed_word_eqI)

lemma slt_Min_iff: "slt Min (x :: 'a::len word) \<longleftrightarrow> x \<noteq> Min"
proof -
  have "sint (Min :: 'a word) < sint x \<longleftrightarrow> sint x \<noteq> sint (Min :: 'a word)"
    using Min_sle [of x] by (auto simp add: word_sle_eq)
  then show ?thesis by (simp add: slt_def word_sless_alt sint_inj)
qed

lemma sgt_Max_iff: "sgt Max (x :: 'a::len word) \<longleftrightarrow> x \<noteq> Max"
proof -
  have "sint x < sint (Max :: 'a word) \<longleftrightarrow> sint x \<noteq> sint (Max :: 'a word)"
    using sle_Max [of x] by (auto simp add: word_sle_eq)
  then show ?thesis by (simp add: sgt_def word_sless_alt sint_inj)
qed

lemma Min_ne_Max: "(Min :: 'a::len word) \<noteq> Max"
proof
  assume "(Min :: 'a word) = Max"
  then have "sint (Min :: 'a word) = sint (NOT (Min :: 'a word))" by (simp add: Max_def)
  then show False by (simp add: sint_NOT) presburger
qed

lemma Min_ne_0: "(Min :: 'a::len word) \<noteq> 0"
proof
  assume "(Min :: 'a word) = 0"
  then have "sint (Min :: 'a word) = sint (0 :: 'a word)" by simp
  then show False by (simp add: sint_Min)
qed

lemma Range_eq_iff: "Range_eq r s \<longleftrightarrow> r = s"
  by (cases r; cases s) (auto simp add: Range_eq_def)

section \<open>Remainder by a zero divisor\<close>

lemma Max_ne_0: "1 < LENGTH('a) \<Longrightarrow> (Max :: 'a::len word) \<noteq> 0"
proof
  assume l: "1 < LENGTH('a)" and "(Max :: 'a word) = 0"
  then have "sint (Max :: 'a word) = 0" by simp
  then have "(2::int) ^ (LENGTH('a) - 1) = 1" by (simp add: sint_Max)
  moreover from l have "(2::int) ^ (LENGTH('a) - 1) \<ge> 2 ^ 1" by (intro power_increasing) simp_all
  ultimately show False by simp
qed

text \<open>
  The remainder by \<open>Range(Min, Max, Empty)\<close> is Empty at every width but 1, where \<open>Max\<close> is
  zero and the first test of \<open>Range::srem\<close> returns \<open>[Min, Max]\<close>.
\<close>

lemma srem_Empty_divisor:
  "1 < LENGTH('a) \<Longrightarrow>
   Range_srem x (Range Min Max Empty :: 'a::len word Range) = Range Min Max Empty"
  by (simp add: Range_srem_def Zero_def Min_ne_0 Max_ne_0 Range_eq_def)

lemma srem_Empty_divisor_width_1:
  "Range_srem x (Range Min Max Empty :: 1 word Range) = Range Min Max Regular"
  by (simp add: Range_srem_def Zero_def Max_def Min_def)

text \<open>
  C3. \<open>Range::srem\<close> tests the bounds of the divisor against zero first and returns
  \<open>[Min, Max]\<close> there, so the later comparison of the divisor with \<open>[0, 0]\<close>, which
  would return \<open>Empty\<close>, is never reached by that divisor: for every dividend \<open>x\<close> the
  remainder by \<open>[0, 0]\<close> is the Regular interval \<open>[Min, Max]\<close>, not \<open>Empty\<close>.
\<close>

theorem srem_zero_divisor_is_max_range:
  "Range_srem x (Range Zero Zero Regular) = Range Min Max Regular
   \<and> \<not> isEmpty (Range_srem x (Range Zero Zero Regular))"
  by (simp add: Range_srem_def isEmpty_def)

section \<open>Division and remainder by an interval with a zero bound\<close>

lemma udiv_zero_bound:
  assumes "getLower d = 0 \<or> getUpper d = 0"
  shows "Range_udiv x d = Range Min Max Regular"
  using assms
  by (auto simp add: Range_udiv_def Let_def not_slt_Min not_sgt_Max slt_Min_iff sgt_Max_iff)

lemma sdiv_zero_bound:
  assumes "getLower d = 0 \<or> getUpper d = 0"
  shows "Range_sdiv x d = Range Min Max Regular"
  using assms
  by (auto simp add: Range_sdiv_def Let_def not_slt_Min not_sgt_Max slt_Min_iff sgt_Max_iff)

lemma urem_zero_bound:
  assumes "getLower d = 0 \<or> getUpper d = 0"
  shows "Range_urem x d = Range Min Max Regular"
  using assms by (auto simp add: Range_urem_def Zero_def)

text \<open>
  C4. For \<open>udiv\<close>, \<open>sdiv\<close> and \<open>urem\<close>: when the lower or the upper bound of the divisor
  interval is zero, the result is the Regular interval \<open>[Min, Max]\<close>. The kinds of the
  operands play no part in these three functions, so the statement holds for Regular
  operands in particular.
\<close>

theorem div_rem_zero_bound_max_range:
  assumes "getLower d = 0 \<or> getUpper d = 0"
  shows "Range_udiv x d = Range Min Max Regular
       \<and> Range_sdiv x d = Range Min Max Regular
       \<and> Range_urem x d = Range Min Max Regular"
  using assms by (simp add: udiv_zero_bound sdiv_zero_bound urem_zero_bound)

theorem div_rem_zero_bound_max_range_witness:
  "(getLower (Range (0 :: 32 word) 5 Regular) = 0 \<or> getUpper (Range (0 :: 32 word) 5 Regular) = 0)
   \<and> isRegular (Range (10 :: 32 word) 20 Regular) \<and> isRegular (Range (0 :: 32 word) 5 Regular)
   \<and> Range_udiv (Range 10 20 Regular) (Range (0 :: 32 word) 5 Regular) = Range Min Max Regular
   \<and> Range_sdiv (Range 10 20 Regular) (Range (0 :: 32 word) 5 Regular) = Range Min Max Regular
   \<and> Range_urem (Range 10 20 Regular) (Range (0 :: 32 word) 5 Regular) = Range Min Max Regular"
  using div_rem_zero_bound_max_range [of "Range (0 :: 32 word) 5 Regular" "Range 10 20 Regular"]
  by (simp add: isRegular_def)

section \<open>Meet and join with Empty and Unknown\<close>

text \<open>
  C6, as stated, fails: the join of \<open>Empty\<close> with \<open>Unknown\<close> is \<open>Unknown\<close>, since
  \<open>unionWith\<close> returns its argument whenever the receiver is Empty; and an Empty interval
  whose endpoints are not \<open>Min\<close> and \<open>Max\<close> is not returned by its join with
  \<open>Range(Min, Max, Empty)\<close>.
\<close>

theorem union_Empty_Unknown_counterexample:
  "\<not> Range_eq (unionWith (Range Min Max Empty) (Range Min Max Unknown))
               (Range (Min :: 32 word) Max Empty)
   \<and> \<not> Range_eq (unionWith (Range 0 0 Empty) (Range Min Max Empty)) (Range (0 :: 32 word) 0 Empty)"
  by (simp add: Range_eq_def unionWith_def isEmpty_def isUnknown_def Min_def Max_def)

text \<open>
  C6, amended. For every interval \<open>x\<close> that is Regular or has the endpoints \<open>Min\<close> and
  \<open>Max\<close> (as every Unknown and Empty interval that the analysis builds has):
  \<open>x.unionWith(Empty) = x\<close>, \<open>x.intersectWith(Empty) = Empty\<close>,
  \<open>x.intersectWith(Unknown) = x\<close>, and \<open>x.unionWith(Unknown) = x\<close> unless \<open>x\<close> is Empty,
  in which case the join is \<open>Unknown\<close>. Equality is \<open>Range::operator==\<close>.
\<close>

theorem meet_join_Empty_Unknown:
  assumes "isRegular x \<or> isMaxRange x"
  shows "Range_eq (unionWith x (Range Min Max Empty)) x
       \<and> Range_eq (intersectWith x (Range Min Max Empty)) (Range Min Max Empty)
       \<and> Range_eq (unionWith x (Range Min Max Unknown))
                  (if isEmpty x then Range Min Max Unknown else x)
       \<and> Range_eq (intersectWith x (Range Min Max Unknown)) x"
  using assms
  by (cases x)
     (auto simp add: Range_eq_iff unionWith_def intersectWith_def isEmpty_def isUnknown_def
        isRegular_def isMaxRange_def)

theorem meet_join_Empty_Unknown_witness:
  "(isRegular (Range (3 :: 32 word) 5 Regular) \<or> isMaxRange (Range (3 :: 32 word) 5 Regular))
   \<and> Range_eq (unionWith (Range (3 :: 32 word) 5 Regular) (Range Min Max Empty)) (Range 3 5 Regular)
   \<and> Range_eq (intersectWith (Range (3 :: 32 word) 5 Regular) (Range Min Max Empty))
               (Range Min Max Empty)
   \<and> Range_eq (unionWith (Range (3 :: 32 word) 5 Regular) (Range Min Max Unknown))
               (Range 3 5 Regular)
   \<and> Range_eq (intersectWith (Range (3 :: 32 word) 5 Regular) (Range Min Max Unknown))
               (Range 3 5 Regular)"
  using meet_join_Empty_Unknown [of "Range (3 :: 32 word) 5 Regular"]
  by (simp add: isRegular_def isEmpty_def)

section \<open>Monotonicity of the arithmetic operations\<close>

lemma sle_sint: "sle x y \<longleftrightarrow> sint x \<le> sint y"
  by (simp add: sle_def word_sle_eq)

lemma ne_Min_mono: "sle b a \<Longrightarrow> b \<noteq> Min \<Longrightarrow> a \<noteq> Min"
  using Min_sle [of b] by (auto simp add: sle_sint word_sle_eq sint_inj [symmetric] simp del: sint_inj)

lemma ne_Max_mono: "sle a b \<Longrightarrow> b \<noteq> Max \<Longrightarrow> a \<noteq> Max"
  using sle_Max [of b] by (auto simp add: sle_sint word_sle_eq sint_inj [symmetric] simp del: sint_inj)

lemma Range_add_monotone:
  assumes "Range_subseteq a b" "Range_subseteq c d" "add_bounds_exact a c" "add_bounds_exact b d"
  shows "Range_subseteq (Range_add a c) (Range_add b d)"
proof -
  have lo: "sle (getLower (Range_add b d)) (getLower (Range_add a c))"
  proof (cases "getLower b = Min \<or> getLower d = Min")
    case True
    then have "getLower (Range_add b d) = Min" by (auto simp add: Range_add_def Let_def)
    then show ?thesis using Min_sle by (simp add: sle_def)
  next
    case False
    then have nb: "getLower b \<noteq> Min" "getLower d \<noteq> Min" by simp_all
    have na: "getLower a \<noteq> Min" "getLower c \<noteq> Min"
      using assms(1,2) nb by (auto simp add: Range_subseteq_def dest: ne_Min_mono)
    have "sint (getLower b + getLower d) \<le> sint (getLower a + getLower c)"
      using assms na nb
      by (simp add: add_bounds_exact_def add_exact_def Range_subseteq_def sle_sint)
    then show ?thesis using na nb by (simp add: Range_add_def Let_def sle_sint)
  qed
  have hi: "sle (getUpper (Range_add a c)) (getUpper (Range_add b d))"
  proof (cases "getUpper b = Max \<or> getUpper d = Max")
    case True
    then have "getUpper (Range_add b d) = Max" by (auto simp add: Range_add_def Let_def)
    then show ?thesis using sle_Max by (simp add: sle_def)
  next
    case False
    then have nb: "getUpper b \<noteq> Max" "getUpper d \<noteq> Max" by simp_all
    have na: "getUpper a \<noteq> Max" "getUpper c \<noteq> Max"
      using assms(1,2) nb by (auto simp add: Range_subseteq_def dest: ne_Max_mono)
    have "sint (getUpper a + getUpper c) \<le> sint (getUpper b + getUpper d)"
      using assms na nb
      by (simp add: add_bounds_exact_def add_exact_def Range_subseteq_def sle_sint)
    then show ?thesis using na nb by (simp add: Range_add_def Let_def sle_sint)
  qed
  from lo hi show ?thesis by (simp add: Range_subseteq_def)
qed

lemma Range_sub_monotone:
  assumes "Range_subseteq a b" "Range_subseteq c d" "sub_bounds_exact a c" "sub_bounds_exact b d"
  shows "Range_subseteq (Range_sub a c) (Range_sub b d)"
proof -
  have lo: "sle (getLower (Range_sub b d)) (getLower (Range_sub a c))"
  proof (cases "getLower b = Min \<or> getUpper d = Max")
    case True
    then have "getLower (Range_sub b d) = Min" by (auto simp add: Range_sub_def Let_def)
    then show ?thesis using Min_sle by (simp add: sle_def)
  next
    case False
    then have nb: "getLower b \<noteq> Min" "getUpper d \<noteq> Max" by simp_all
    have na: "getLower a \<noteq> Min" "getUpper c \<noteq> Max"
      using assms(1,2) nb by (auto simp add: Range_subseteq_def dest: ne_Min_mono ne_Max_mono)
    have "sint (getLower b - getUpper d) \<le> sint (getLower a - getUpper c)"
      using assms na nb
      by (simp add: sub_bounds_exact_def sub_exact_def Range_subseteq_def sle_sint)
    then show ?thesis using na nb by (simp add: Range_sub_def Let_def sle_sint)
  qed
  have hi: "sle (getUpper (Range_sub a c)) (getUpper (Range_sub b d))"
  proof (cases "getUpper b = Max \<or> getLower d = Min")
    case True
    then have "getUpper (Range_sub b d) = Max" by (auto simp add: Range_sub_def Let_def)
    then show ?thesis using sle_Max by (simp add: sle_def)
  next
    case False
    then have nb: "getUpper b \<noteq> Max" "getLower d \<noteq> Min" by simp_all
    have na: "getUpper a \<noteq> Max" "getLower c \<noteq> Min"
      using assms(1,2) nb by (auto simp add: Range_subseteq_def dest: ne_Min_mono ne_Max_mono)
    have "sint (getUpper a - getLower c) \<le> sint (getUpper b - getLower d)"
      using assms na nb
      by (simp add: sub_bounds_exact_def sub_exact_def Range_subseteq_def sle_sint)
    then show ?thesis using na nb by (simp add: Range_sub_def Let_def sle_sint)
  qed
  from lo hi show ?thesis by (simp add: Range_subseteq_def)
qed

lemmas cex_simps = violates_monotonicity_def Range_subseteq_def isRegular_def sle_def slt_def sgt_def
  word_sle_eq word_sless_alt Min_def Max_def Zero_def Let_def isUnknown_def isMaxRange_def
  corners_def isNegative_def

lemma c_add: "violates_monotonicity Range_add (Range (0::32 word) 0 Regular) (Range Min 2 Regular)
    (Range 0 0 Regular) (Range 0 (Max - 1) Regular)"
  by (simp add: cex_simps Range_add_def)

lemma c_sub: "violates_monotonicity Range_sub (Range (0::32 word) 0 Regular) (Range 0 1 Regular)
    (Range 0 0 Regular) (Range (Min + 1) Max Regular)"
  by (simp add: cex_simps Range_sub_def)

lemma c_mul: "violates_monotonicity Range_mul (Range (0::32 word) 1 Regular) (Range 0 65536 Regular)
    (Range 0 1 Regular) (Range 0 65536 Regular)"
  by (simp add: cex_simps Range_mul_def MUL_HELPER_def)

lemma c_udiv: "violates_monotonicity Range_udiv (Range (-4::32 word) (-4) Regular) (Range (-4) (-4) Regular)
    (Range (-4) 0 Regular) (Range (-4) 1 Regular)"
  by (simp add: cex_simps Range_udiv_def APInt_udiv_def)

lemma c_sdiv: "violates_monotonicity Range_sdiv (Range (-4::32 word) (-4) Regular) (Range (-4) (-4) Regular)
    (Range (-4) (-2) Regular) (Range (-4) 1 Regular)"
  by (simp add: cex_simps Range_sdiv_def APInt_sdiv_def APInt_udiv_def)

lemma c_urem: "violates_monotonicity Range_urem (Range (0::32 word) 1 Regular) (Range 0 2 Regular)
    (Range 1 2 Regular) (Range 1 2 Regular)"
  by (simp add: cex_simps Range_urem_def APInt_urem_def)

lemma c_srem: "violates_monotonicity Range_srem (Range (0::32 word) 1 Regular) (Range 0 2 Regular)
    (Range 1 2 Regular) (Range 1 2 Regular)"
  by (simp add: cex_simps Range_srem_def APInt_srem_def APInt_urem_def Range_eq_def)

lemma c_shl: "violates_monotonicity Range_shl (Range (-2::32 word) (-2) Regular) (Range (-2) (-2) Regular)
    (Range 1 1 Regular) (Range 0 31 Regular)"
  by (simp add: cex_simps Range_shl_def APInt_shl_def)

lemma c_lshr: "violates_monotonicity Range_lshr (Range (0::32 word) 1 Regular) (Range 0 1 Regular)
    (Range (-4) 0 Regular) (Range (-4) 1 Regular)"
  by (simp add: cex_simps Range_lshr_def APInt_lshr_def)

lemma c_ashr: "violates_monotonicity Range_ashr (Range (-4::32 word) (-4) Regular) (Range (-4) (-4) Regular)
    (Range (-4) 0 Regular) (Range (-4) 1 Regular)"
  by (simp add: cex_simps Range_ashr_def APInt_ashr_def)

lemma c_and: "violates_monotonicity Range_And (Range (0::32 word) 1 Regular) (Range 0 1 Regular)
    (Range 0 1 Regular) (Range 0 2 Regular)"
  by (simp add: cex_simps Range_And_def APInt_And_def)

lemma c_or: "violates_monotonicity Range_Or (Range (0::32 word) 1 Regular) (Range 0 2 Regular)
    (Range 0 2 Regular) (Range 0 2 Regular)"
  by (simp add: cex_simps Range_Or_def APInt_Or_def)

lemma c_xor: "violates_monotonicity Range_Xor (Range (0::32 word) 0 Regular) (Range 0 1 Regular)
    (Range 0 3 Regular) (Range 0 3 Regular)"
  by (simp add: cex_simps Range_Xor_def APInt_Xor_def)

text \<open>
  C5, as stated, fails for each of the thirteen operations: at width 32 there are Regular
  intervals \<open>a \<subseteq> b\<close> and \<open>c \<subseteq> d\<close> for which \<open>a.op(c)\<close> is not contained in
  \<open>b.op(d)\<close>. For \<open>add\<close>, \<open>sub\<close>, \<open>mul\<close> and \<open>shl\<close> a bound of \<open>b.op(d)\<close> wraps around;
  the other operations combine only two of the four corner values for each bound.
\<close>

theorem monotonicity_counterexample:
  "violates_monotonicity Range_add (Range (0::32 word) 0 Regular) (Range Min 2 Regular)
     (Range 0 0 Regular) (Range 0 (Max - 1) Regular)
   \<and> violates_monotonicity Range_sub (Range (0::32 word) 0 Regular) (Range 0 1 Regular)
     (Range 0 0 Regular) (Range (Min + 1) Max Regular)
   \<and> violates_monotonicity Range_mul (Range (0::32 word) 1 Regular) (Range 0 65536 Regular)
     (Range 0 1 Regular) (Range 0 65536 Regular)
   \<and> violates_monotonicity Range_udiv (Range (-4::32 word) (-4) Regular) (Range (-4) (-4) Regular)
     (Range (-4) 0 Regular) (Range (-4) 1 Regular)
   \<and> violates_monotonicity Range_sdiv (Range (-4::32 word) (-4) Regular) (Range (-4) (-4) Regular)
     (Range (-4) (-2) Regular) (Range (-4) 1 Regular)
   \<and> violates_monotonicity Range_urem (Range (0::32 word) 1 Regular) (Range 0 2 Regular)
     (Range 1 2 Regular) (Range 1 2 Regular)
   \<and> violates_monotonicity Range_srem (Range (0::32 word) 1 Regular) (Range 0 2 Regular)
     (Range 1 2 Regular) (Range 1 2 Regular)
   \<and> violates_monotonicity Range_shl (Range (-2::32 word) (-2) Regular) (Range (-2) (-2) Regular)
     (Range 1 1 Regular) (Range 0 31 Regular)
   \<and> violates_monotonicity Range_lshr (Range (0::32 word) 1 Regular) (Range 0 1 Regular)
     (Range (-4) 0 Regular) (Range (-4) 1 Regular)
   \<and> violates_monotonicity Range_ashr (Range (-4::32 word) (-4) Regular) (Range (-4) (-4) Regular)
     (Range (-4) 0 Regular) (Range (-4) 1 Regular)
   \<and> violates_monotonicity Range_And (Range (0::32 word) 1 Regular) (Range 0 1 Regular)
     (Range 0 1 Regular) (Range 0 2 Regular)
   \<and> violates_monotonicity Range_Or (Range (0::32 word) 1 Regular) (Range 0 2 Regular)
     (Range 0 2 Regular) (Range 0 2 Regular)
   \<and> violates_monotonicity Range_Xor (Range (0::32 word) 0 Regular) (Range 0 1 Regular)
     (Range 0 3 Regular) (Range 0 3 Regular)"
  by (intro conjI c_add c_sub c_mul c_udiv c_sdiv c_urem c_srem c_shl c_lshr c_ashr c_and c_or c_xor)

text \<open>
  C5, amended. For \<open>add\<close> and \<open>sub\<close> and all Regular intervals \<open>a \<subseteq> b\<close> and \<open>c \<subseteq> d\<close>:
  when no bound that the operation computes for \<open>a\<close>, \<open>c\<close> and for \<open>b\<close>, \<open>d\<close> overflows the
  signed range of the width, \<open>a.op(c)\<close> is contained in \<open>b.op(d)\<close>.
\<close>

theorem add_sub_monotone_when_exact:
  assumes "isRegular a" and "isRegular b" and "isRegular c" and "isRegular d"
    and "Range_subseteq a b" and "Range_subseteq c d"
  shows "(add_bounds_exact a c \<and> add_bounds_exact b d
            \<longrightarrow> Range_subseteq (Range_add a c) (Range_add b d))
       \<and> (sub_bounds_exact a c \<and> sub_bounds_exact b d
            \<longrightarrow> Range_subseteq (Range_sub a c) (Range_sub b d))"
  using assms(5,6) by (simp add: Range_add_monotone Range_sub_monotone)

theorem add_sub_monotone_when_exact_witness:
  "isRegular (Range (1::32 word) 2 Regular) \<and> isRegular (Range (0::32 word) 5 Regular)
   \<and> isRegular (Range (3::32 word) 4 Regular) \<and> isRegular (Range (1::32 word) 10 Regular)
   \<and> Range_subseteq (Range (1::32 word) 2 Regular) (Range 0 5 Regular)
   \<and> Range_subseteq (Range (3::32 word) 4 Regular) (Range 1 10 Regular)
   \<and> add_bounds_exact (Range (1::32 word) 2 Regular) (Range 3 4 Regular)
   \<and> add_bounds_exact (Range (0::32 word) 5 Regular) (Range 1 10 Regular)
   \<and> sub_bounds_exact (Range (1::32 word) 2 Regular) (Range 3 4 Regular)
   \<and> sub_bounds_exact (Range (0::32 word) 5 Regular) (Range 1 10 Regular)
   \<and> Range_subseteq (Range_add (Range (1::32 word) 2 Regular) (Range 3 4 Regular))
        (Range_add (Range 0 5 Regular) (Range 1 10 Regular))
   \<and> Range_subseteq (Range_sub (Range (1::32 word) 2 Regular) (Range 3 4 Regular))
        (Range_sub (Range 0 5 Regular) (Range 1 10 Regular))"
proof -
  have r: "isRegular (Range (1::32 word) 2 Regular)" "isRegular (Range (0::32 word) 5 Regular)"
    "isRegular (Range (3::32 word) 4 Regular)" "isRegular (Range (1::32 word) 10 Regular)"
    by (simp_all add: isRegular_def)
  have s: "Range_subseteq (Range (1::32 word) 2 Regular) (Range 0 5 Regular)"
    "Range_subseteq (Range (3::32 word) 4 Regular) (Range 1 10 Regular)"
    by (simp_all add: Range_subseteq_def sle_def word_sle_eq)
  have e: "add_bounds_exact (Range (1::32 word) 2 Regular) (Range 3 4 Regular)"
    "add_bounds_exact (Range (0::32 word) 5 Regular) (Range 1 10 Regular)"
    "sub_bounds_exact (Range (1::32 word) 2 Regular) (Range 3 4 Regular)"
    "sub_bounds_exact (Range (0::32 word) 5 Regular) (Range 1 10 Regular)"
    by (simp_all add: add_bounds_exact_def sub_bounds_exact_def add_exact_def sub_exact_def)
  from add_sub_monotone_when_exact [OF r s] e r s show ?thesis by simp
qed

section \<open>Evaluation of a phi operation\<close>

lemma PhiOp_loop_foldl: "PhiOp_loop g r srcs = foldl unionWith r (map (VarNode_getRange g) srcs)"
  by (induction srcs arbitrary: r) simp_all

lemma sle_trans: "sle x y \<Longrightarrow> sle y z \<Longrightarrow> sle x z"
  by (simp add: sle_sint)

lemma Range_subseteq_trans:
  "Range_subseteq a b \<Longrightarrow> Range_subseteq b c \<Longrightarrow> Range_subseteq a c"
  by (auto simp add: Range_subseteq_def intro: sle_trans)

lemma unionWith_left:
  "isRegular acc \<Longrightarrow> isRegular (unionWith acc y) \<and> Range_subseteq acc (unionWith acc y)"
  by (cases acc; cases y)
     (auto simp add: unionWith_def isRegular_def isEmpty_def isUnknown_def Range_subseteq_def
        sle_sint slt_def sgt_def word_sless_alt Let_def)

lemma unionWith_right:
  "isRegular y \<Longrightarrow> isRegular (unionWith acc y) \<and> Range_subseteq y (unionWith acc y)"
  by (cases acc; cases y)
     (auto simp add: unionWith_def isRegular_def isEmpty_def isUnknown_def Range_subseteq_def
        sle_sint slt_def sgt_def word_sless_alt Let_def)

lemma foldl_unionWith_acc:
  "isRegular acc \<Longrightarrow>
   isRegular (foldl unionWith acc ys) \<and> Range_subseteq acc (foldl unionWith acc ys)"
proof (induction ys arbitrary: acc)
  case Nil
  then show ?case by (simp add: Range_subseteq_def sle_sint)
next
  case (Cons y ys)
  from unionWith_left [OF Cons.prems, of y] have r: "isRegular (unionWith acc y)"
    and s: "Range_subseteq acc (unionWith acc y)" by simp_all
  from Cons.IH [OF r] s show ?case by (auto intro: Range_subseteq_trans)
qed

lemma foldl_unionWith_member:
  "y \<in> set ys \<Longrightarrow> isRegular y \<Longrightarrow>
   isRegular (foldl unionWith acc ys) \<and> Range_subseteq y (foldl unionWith acc ys)"
proof (induction ys arbitrary: acc)
  case Nil
  then show ?case by simp
next
  case (Cons z ys)
  show ?case
  proof (cases "y = z")
    case True
    from unionWith_right [OF Cons.prems(2), of acc] True have r: "isRegular (unionWith acc z)"
      and s: "Range_subseteq y (unionWith acc z)" by simp_all
    from foldl_unionWith_acc [OF r, of ys] s show ?thesis by (auto intro: Range_subseteq_trans)
  next
    case False
    with Cons.prems(1) have "y \<in> set ys" by simp
    from Cons.IH [OF this Cons.prems(2)] show ?thesis by simp
  qed
qed

text \<open>
  C9, as stated, fails: \<open>PhiOp::eval\<close> reads source 0 before anything else and is not
  defined for a \<open>PhiOp\<close> without sources. The matcher creates such an operation for the
  parameter of a function whose only use is not a call: after
  \<open>MatchParametersAndReturnValues\<close> the parameter is defined by a \<open>PhiOp\<close> with no
  sources, and its evaluation reads outside the source vector.
\<close>

theorem PhiOp_eval_no_sources_counterexample:
  "map_sum id (\<lambda>g. (defMap g (Variable 0 32), ops g 0, eval g (ops g 0)))
     (MatchParametersAndReturnValues address_taken (ConstraintGraph_ctor :: 32 word ConstraintGraph))
   = Inr (Some 0, PhiOp MaxInterval 0 [] PHI, Inl OutOfBounds)"
  by (simp add: MatchParametersAndReturnValues_def address_taken_def addVarNode_def
      ConstraintGraph_ctor_def new_op_def Let_def VarNode_getValue_def VarNode_ctor_def eval_def
      PhiOp_eval_def)

text \<open>
  C9, amended. For every \<open>PhiOp\<close> with at least one source, \<open>PhiOp::eval\<close> returns the
  \<open>unionWith\<close> fold of the current ranges of its sources, starting from the first; when the
  range of a source is Regular, the result is Regular and contains it. Evaluation is not
  defined for a \<open>PhiOp\<close> without sources.
\<close>

theorem PhiOp_eval_union_of_sources:
  assumes "getSources op = s0 # rest"
  shows "PhiOp_eval g op
           = Inr (foldl unionWith (VarNode_getRange g s0) (map (VarNode_getRange g) rest))
       \<and> (\<forall>s \<in> set (getSources op). isRegular (VarNode_getRange g s) \<longrightarrow>
            (\<exists>r. PhiOp_eval g op = Inr r \<and> isRegular r
                 \<and> Range_subseteq (VarNode_getRange g s) r))"
proof -
  let ?r = "foldl unionWith (VarNode_getRange g s0) (map (VarNode_getRange g) rest)"
  have e: "PhiOp_eval g op = Inr ?r"
    using assms by (simp add: PhiOp_eval_def PhiOp_loop_foldl)
  have "isRegular ?r \<and> Range_subseteq (VarNode_getRange g s) ?r"
    if "s \<in> set (s0 # rest)" and "isRegular (VarNode_getRange g s)" for s
  proof (cases "s = s0")
    case True
    with that(2) show ?thesis using foldl_unionWith_acc by blast
  next
    case False
    with that(1) have "VarNode_getRange g s \<in> set (map (VarNode_getRange g) rest)" by simp
    from foldl_unionWith_member [OF this that(2)] show ?thesis .
  qed
  with e assms show ?thesis by simp
qed

section \<open>The invariant of the node maps\<close>

lemma same_nodes_refl: "same_nodes g g"
  by (simp add: same_nodes_def)

lemma same_nodes_trans: "same_nodes g g1 \<Longrightarrow> same_nodes g1 g2 \<Longrightarrow> same_nodes g g2"
  by (simp add: same_nodes_def)

lemma graph_inv_same_nodes: "graph_inv g \<Longrightarrow> same_nodes g g' \<Longrightarrow> graph_inv g'"
  by (auto simp add: graph_inv_def same_nodes_def)

lemma graph_inv_ctor: "graph_inv ConstraintGraph_ctor"
  by (simp add: graph_inv_def ConstraintGraph_ctor_def)

lemma map_of_vars_address:
  assumes "map snd xs = [0..<length xs]" and "(v, a) \<in> set xs"
  shows "a < length xs"
proof -
  from assms(2) have "a \<in> set (map snd xs)" by force
  with assms(1) show ?thesis by simp
qed

lemma addVarNode_inv:
  assumes "graph_inv g" and "addVarNode g v = (g', a)"
  shows "graph_inv g' \<and> (v, a) \<in> set (vars g') \<and> set (vars g) \<subseteq> set (vars g')
       \<and> defMap g' = defMap g \<and> ops g' = ops g \<and> opCount g' = opCount g
       \<and> (\<forall>w. useMap g w \<noteq> None \<longrightarrow> useMap g' w \<noteq> None)"
proof (cases "map_of (vars g) v")
  case None
  with assms(2) have a: "a = length (vars g)"
    and vs: "vars g' = vars g @ [(v, length (vars g))]"
    and ns: "nodes g' = (nodes g)(length (vars g) := VarNode_ctor v)"
    and um: "useMap g' v \<noteq> None" "\<forall>w. useMap g w \<noteq> None \<longrightarrow> useMap g' w \<noteq> None"
    and rest: "defMap g' = defMap g" "ops g' = ops g" "opCount g' = opCount g"
    by (auto simp add: addVarNode_def Let_def split: option.splits)
  have fresh: "\<And>w b. (w, b) \<in> set (vars g) \<Longrightarrow> b \<noteq> length (vars g)"
    using assms(1) map_of_vars_address [of "vars g"] by (fastforce simp add: graph_inv_def)
  have "graph_inv g'"
    using assms(1) fresh um unfolding graph_inv_def vs
    by (auto simp add: VarNode_getValue_def VarNode_ctor_def ns)
  then show ?thesis using a vs um rest by auto
next
  case (Some b)
  with assms(2) have "g' = g" "a = b" by (auto simp add: addVarNode_def)
  with Some assms(1) show ?thesis by (auto dest: map_of_SomeD)
qed

lemma useMap_insert_same_nodes:
  "useMap_insert g v op = Inr g' \<Longrightarrow> same_nodes g g' \<and> defMap g' = defMap g \<and> ops g' = ops g"
  by (auto simp add: useMap_insert_def same_nodes_def VarNode_getValue_def split: option.splits)

lemma useMap_insert_found:
  "useMap g v \<noteq> None \<Longrightarrow> \<exists>g'. useMap_insert g v op = Inr g'"
  by (auto simp add: useMap_insert_def split: option.splits)

lemma graph_inv_key:
  "graph_inv g \<Longrightarrow> (v, a) \<in> set (vars g) \<Longrightarrow> useMap g (VarNode_getValue g a) \<noteq> None"
  by (auto simp add: graph_inv_def)

lemma same_nodes_new_op: "new_op g op = (g', a) \<Longrightarrow> same_nodes g g'"
  by (auto simp add: new_op_def same_nodes_def VarNode_getValue_def)

lemma same_nodes_oprs: "same_nodes g (g\<lparr>oprs := x\<rparr>)"
  by (simp add: same_nodes_def VarNode_getValue_def)

lemma same_nodes_defMap: "same_nodes g (g\<lparr>defMap := x\<rparr>)"
  by (simp add: same_nodes_def VarNode_getValue_def)

lemma same_nodes_symbMap: "same_nodes g (g\<lparr>symbMap := x\<rparr>)"
  by (simp add: same_nodes_def VarNode_getValue_def)

lemma same_nodes_addSource: "same_nodes g (addSource g phi src)"
  by (simp add: same_nodes_def VarNode_getValue_def addSource_def split: BasicOp.splits)

lemma same_nodes_setRange: "same_nodes g (VarNode_setRange g a r)"
  by (simp add: same_nodes_def VarNode_getValue_def VarNode_setRange_def)

lemma same_nodes_markUnresolved: "same_nodes g (markUnresolved g op)"
  by (simp add: same_nodes_def VarNode_getValue_def markUnresolved_def split: BasicOp.splits)

lemma VarNode_getValue_upd [simp]:
  "VarNode_getValue (g\<lparr>ops := x1\<rparr>) a = VarNode_getValue g a"
  "VarNode_getValue (g\<lparr>opCount := x2\<rparr>) a = VarNode_getValue g a"
  "VarNode_getValue (g\<lparr>oprs := x3\<rparr>) a = VarNode_getValue g a"
  "VarNode_getValue (g\<lparr>defMap := x4\<rparr>) a = VarNode_getValue g a"
  "VarNode_getValue (g\<lparr>useMap := x5\<rparr>) a = VarNode_getValue g a"
  "VarNode_getValue (g\<lparr>symbMap := x6\<rparr>) a = VarNode_getValue g a"
  "VarNode_getValue (g\<lparr>valuesBranchMap := x7\<rparr>) a = VarNode_getValue g a"
  "VarNode_getValue (g\<lparr>valuesSwitchMap := x8\<rparr>) a = VarNode_getValue g a"
  by (simp_all add: VarNode_getValue_def)

lemma graph_inv_upd [simp]:
  "graph_inv (g\<lparr>ops := x1\<rparr>) = graph_inv g"
  "graph_inv (g\<lparr>opCount := x2\<rparr>) = graph_inv g"
  "graph_inv (g\<lparr>oprs := x3\<rparr>) = graph_inv g"
  "graph_inv (g\<lparr>defMap := x4\<rparr>) = graph_inv g"
  "graph_inv (g\<lparr>symbMap := x6\<rparr>) = graph_inv g"
  "graph_inv (g\<lparr>valuesBranchMap := x7\<rparr>) = graph_inv g"
  "graph_inv (g\<lparr>valuesSwitchMap := x8\<rparr>) = graph_inv g"
  by (simp_all add: graph_inv_def)

lemma ok_result_simps [simp]:
  "ok_result (Inr g) = graph_inv g"
  "ok_result (Inl e) = (e \<noteq> KeyNotFound)"
  by (simp_all add: ok_result_def)

lemma ok_result_bind:
  assumes "ok_result r" and "\<And>g. r = Inr g \<Longrightarrow> graph_inv g \<Longrightarrow> ok_result (f g)"
  shows "ok_result (case r of Inl e \<Rightarrow> Inl e | Inr g \<Rightarrow> f g)"
  using assms by (cases r) auto

lemma graph_inv_value:
  "graph_inv g \<Longrightarrow> (v, a) \<in> set (vars g) \<Longrightarrow> VarNode_getValue g a = v"
  by (auto simp add: graph_inv_def)

lemma useMap_insert_ok:
  assumes "graph_inv g" and "(v, a) \<in> set (vars g)"
  shows "ok_result (useMap_insert g v op)"
proof -
  from assms have "useMap g v \<noteq> None" by (auto simp add: graph_inv_def)
  with useMap_insert_found obtain g' where g': "useMap_insert g v op = Inr g'" by blast
  with useMap_insert_same_nodes graph_inv_same_nodes assms(1) show ?thesis by fastforce
qed

lemma useMap_insert_vars: "useMap_insert g v op = Inr g' \<Longrightarrow> vars g' = vars g"
  by (auto simp add: useMap_insert_def split: option.splits)

lemma addSource_inv [simp]: "graph_inv (addSource g phi src) = graph_inv g"
  by (simp add: addSource_def split: BasicOp.splits)

lemma addSource_vars [simp]: "vars (addSource g phi src) = vars g"
  by (simp add: addSource_def split: BasicOp.splits)

lemma getOperand_error: "getOperand I k = Inl e \<Longrightarrow> e = OutOfBounds"
  by (auto simp add: getOperand_def split: if_splits)

lemma addUnaryOp_ok:
  assumes inv: "graph_inv g"
  shows "ok_result (addUnaryOp g I)"
proof -
  obtain g1 sink where s1: "addVarNode g (inst_value I) = (g1, sink)" by fastforce
  from addVarNode_inv [OF inv s1] have inv1: "graph_inv g1" by simp
  show ?thesis
  proof (cases "inst_opcode I \<in> {Store, Load, Trunc, ZExt, SExt}")
    case False
    then show ?thesis using s1 inv1 by (simp add: addUnaryOp_def)
  next
    case True
    show ?thesis
    proof (cases "getOperand I (if inst_opcode I = Store then 1 else 0)")
      case (Inl e)
      then show ?thesis using s1 True getOperand_error [OF Inl]
        by (simp add: addUnaryOp_def del: insert_iff)
    next
      case (Inr operand)
      obtain g2 source where s2: "addVarNode g1 operand = (g2, source)" by fastforce
      from addVarNode_inv [OF inv1 s2] have inv2: "graph_inv g2"
        and mem: "(operand, source) \<in> set (vars g2)" by simp_all
      from graph_inv_value [OF inv2 mem] have val: "VarNode_getValue g2 source = operand" .
      show ?thesis using s1 True Inr s2 val inv2 mem
        by (auto simp add: addUnaryOp_def Let_def new_op_def simp del: insert_iff
            intro!: useMap_insert_ok [where a = source])
    qed
  qed
qed

lemma addBinaryOp_ok:
  assumes inv: "graph_inv g"
  shows "ok_result (addBinaryOp g I)"
proof -
  obtain g1 sink where s1: "addVarNode g (inst_value I) = (g1, sink)" by fastforce
  from addVarNode_inv [OF inv s1] have inv1: "graph_inv g1" by simp
  show ?thesis
  proof (cases "getOperand I 0")
    case (Inl e)
    then show ?thesis using s1 getOperand_error [OF Inl] by (simp add: addBinaryOp_def)
  next
    case (Inr operand0)
    note op0 = Inr
    obtain g2 source1 where s2: "addVarNode g1 operand0 = (g2, source1)" by fastforce
    from addVarNode_inv [OF inv1 s2] have inv2: "graph_inv g2"
      and mem1: "(operand0, source1) \<in> set (vars g2)" by simp_all
    show ?thesis
    proof (cases "getOperand I 1")
      case (Inl e)
      then show ?thesis using s1 op0 s2 getOperand_error [OF Inl] by (simp add: addBinaryOp_def)
    next
      case (Inr operand1)
      obtain g3 source2 where s3: "addVarNode g2 operand1 = (g3, source2)" by fastforce
      from addVarNode_inv [OF inv2 s3] have inv3: "graph_inv g3"
        and mem2: "(operand1, source2) \<in> set (vars g3)"
        and sub: "set (vars g2) \<subseteq> set (vars g3)" by simp_all
      from sub mem1 have mem1': "(operand0, source1) \<in> set (vars g3)" by auto
      from graph_inv_value [OF inv3 mem1'] have val1: "VarNode_getValue g3 source1 = operand0" .
      from graph_inv_value [OF inv3 mem2] have val2: "VarNode_getValue g3 source2 = operand1" .
      let ?g6 = "g3\<lparr>ops := (ops g3)(opCount g3 := BinaryOp MaxInterval sink source1 source2 (inst_opcode I)),
                   opCount := Suc (opCount g3), oprs := set_insert (opCount g3) (oprs g3),
                   defMap := (defMap g3)(VarNode_getValue g3 sink \<mapsto> opCount g3)\<rparr>"
      have inv6: "graph_inv ?g6" using inv3 by simp
      have "ok_result (useMap_insert ?g6 operand0 (opCount g3))"
        using inv6 mem1' by (intro useMap_insert_ok [where a = source1]) simp_all
      moreover have "\<And>g7. useMap_insert ?g6 operand0 (opCount g3) = Inr g7 \<Longrightarrow> graph_inv g7 \<Longrightarrow>
          ok_result (useMap_insert g7 operand1 (opCount g3))"
      proof -
        fix g7 assume a: "useMap_insert ?g6 operand0 (opCount g3) = Inr g7" and i: "graph_inv g7"
        from useMap_insert_vars [OF a] mem2 have "(operand1, source2) \<in> set (vars g7)" by simp
        with i show "ok_result (useMap_insert g7 operand1 (opCount g3))"
          by (rule useMap_insert_ok)
      qed
      ultimately have "ok_result (case useMap_insert ?g6 operand0 (opCount g3) of
           Inl e \<Rightarrow> Inl e | Inr g7 \<Rightarrow> useMap_insert g7 operand1 (opCount g3))"
        by (rule ok_result_bind)
      moreover have "\<And>g7. useMap_insert ?g6 operand0 (opCount g3) = Inr g7 \<Longrightarrow>
           VarNode_getValue g7 source2 = operand1"
        using val2 by (auto dest!: useMap_insert_same_nodes simp add: same_nodes_def)
      ultimately show ?thesis using s1 op0 s2 Inr s3 val1
        by (auto simp add: addBinaryOp_def Let_def new_op_def split: sum.splits)
    qed
  qed
qed

lemma install_ok:
  assumes "graph_inv g1" and "(operand, source) \<in> set (vars g1)"
    and "vars G = vars g1" and "graph_inv G"
  shows "ok_result (useMap_insert G (VarNode_getValue g1 source) op)"
proof -
  from graph_inv_value [OF assms(1,2)] have "VarNode_getValue g1 source = operand" .
  moreover from assms(2,3) have "(operand, source) \<in> set (vars G)" by simp
  ultimately show ?thesis using useMap_insert_ok [OF assms(4)] by simp
qed

lemma addPhiOp_loop_ok: "graph_inv g \<Longrightarrow> ok_result (addPhiOp_loop g phiOp xs)"
proof (induction xs arbitrary: g)
  case Nil
  then show ?case by simp
next
  case (Cons operand it)
  obtain g1 source where s: "addVarNode g operand = (g1, source)" by fastforce
  from addVarNode_inv [OF Cons.prems s] have inv1: "graph_inv g1"
    and mem: "(operand, source) \<in> set (vars g1)" by simp_all
  have "ok_result (useMap_insert (addSource g1 phiOp source) (VarNode_getValue g1 source) phiOp)"
    using inv1 mem by (intro install_ok [where operand = operand]) simp_all
  then have "ok_result (case useMap_insert (addSource g1 phiOp source) (VarNode_getValue g1 source) phiOp of
      Inl e \<Rightarrow> Inl e | Inr g3 \<Rightarrow> addPhiOp_loop g3 phiOp it)"
    by (rule ok_result_bind) (rule Cons.IH)
  moreover have "VarNode_getValue (addSource g1 phiOp source) source = VarNode_getValue g1 source"
    by (simp add: addSource_def VarNode_getValue_def split: BasicOp.splits)
  ultimately show ?case using s by (simp add: Let_def)
qed

lemma addPhiOp_ok:
  assumes inv: "graph_inv g"
  shows "ok_result (addPhiOp g Phi)"
proof -
  obtain g1 sink where s1: "addVarNode g (inst_value Phi) = (g1, sink)" by fastforce
  from addVarNode_inv [OF inv s1] have inv1: "graph_inv g1" by simp
  show ?thesis using s1 inv1
    by (simp add: addPhiOp_def Let_def new_op_def addPhiOp_loop_ok)
qed

lemma addSigmaOp_loop_ok: "graph_inv g \<Longrightarrow> ok_result (addSigmaOp_loop g sg sink BItv xs)"
proof (induction xs arbitrary: g BItv)
  case Nil
  then show ?case by simp
next
  case (Cons operand it)
  obtain g1 source where s: "addVarNode g operand = (g1, source)" by fastforce
  from addVarNode_inv [OF Cons.prems s] have inv1: "graph_inv g1"
    and mem: "(operand, source) \<in> set (vars g1)" by simp_all
  have step: "ok_result (case useMap_insert
          (g1\<lparr>ops := (ops g1)(opCount g1 := sop), opCount := Suc (opCount g1),
               oprs := set_insert (opCount g1) (oprs g1),
               defMap := (defMap g1)(VarNode_getValue g1 sink \<mapsto> opCount g1)\<rparr>)
          (VarNode_getValue g1 source) (opCount g1) of
      Inl e \<Rightarrow> Inl e | Inr g5 \<Rightarrow> addSigmaOp_loop g5 sg sink B it)" for sop B
  proof (rule ok_result_bind)
    show "ok_result (useMap_insert
          (g1\<lparr>ops := (ops g1)(opCount g1 := sop), opCount := Suc (opCount g1),
               oprs := set_insert (opCount g1) (oprs g1),
               defMap := (defMap g1)(VarNode_getValue g1 sink \<mapsto> opCount g1)\<rparr>)
          (VarNode_getValue g1 source) (opCount g1))"
      using inv1 mem by (intro install_ok [where operand = operand]) simp_all
  qed (rule Cons.IH)
  show ?case using s step Cons.IH [OF inv1]
    by (simp add: Let_def new_op_def split: option.splits)
qed

lemma addSigmaOp_ok:
  assumes inv: "graph_inv g"
  shows "ok_result (addSigmaOp g sg)"
proof -
  obtain g1 sink where s1: "addVarNode g (inst_value sg) = (g1, sink)" by fastforce
  from addVarNode_inv [OF inv s1] have inv1: "graph_inv g1" by simp
  show ?thesis using s1 inv1 by (simp add: addSigmaOp_def addSigmaOp_loop_ok)
qed

lemma addVarNode_vars_mono: "addVarNode g v = (g', a) \<Longrightarrow> set (vars g) \<subseteq> set (vars g')"
  by (auto simp add: addVarNode_def Let_def split: option.splits)

lemma match_formals_inv:
  "graph_inv g \<Longrightarrow> match_formals g ps = (g', ms) \<Longrightarrow> graph_inv g' \<and> set (vars g) \<subseteq> set (vars g')"
proof (induction ps arbitrary: g g' ms)
  case Nil
  then show ?case by simp
next
  case (Cons param ps)
  obtain g1 sink where s: "addVarNode g param = (g1, sink)" by fastforce
  from addVarNode_inv [OF Cons.prems(1) s] have inv1: "graph_inv g1"
    and sub: "set (vars g) \<subseteq> set (vars g1)" by simp_all
  let ?g4 = "g1\<lparr>ops := (ops g1)(opCount g1 := PhiOp MaxInterval sink [] PHI),
                 opCount := Suc (opCount g1), oprs := set_insert (opCount g1) (oprs g1),
                 defMap := (defMap g1)(VarNode_getValue g1 sink \<mapsto> opCount g1)\<rparr>"
  obtain g5 ms' where r: "match_formals ?g4 ps = (g5, ms')" by fastforce
  have "graph_inv ?g4" using inv1 by simp
  from Cons.IH [OF this r] have "graph_inv g5" "set (vars g1) \<subseteq> set (vars g5)" by simp_all
  moreover from Cons.prems(2) s r have "g' = g5" by (simp add: Let_def new_op_def)
  ultimately show ?case using sub by auto
qed

lemma match_returnvars_inv:
  "graph_inv g \<Longrightarrow> match_returnvars g rs = (g', rv) \<Longrightarrow>
   graph_inv g' \<and> set (vars g) \<subseteq> set (vars g') \<and> set rv \<subseteq> snd ` set (vars g')"
proof (induction rs arbitrary: g g' rv)
  case Nil
  then show ?case by simp
next
  case (Cons ri rs)
  obtain g1 frm where s: "addVarNode g ri = (g1, frm)" by fastforce
  from addVarNode_inv [OF Cons.prems(1) s] have inv1: "graph_inv g1"
    and mem: "(ri, frm) \<in> set (vars g1)"
    and sub: "set (vars g) \<subseteq> set (vars g1)" by simp_all
  obtain g2 rv' where r: "match_returnvars g1 rs = (g2, rv')" by fastforce
  from Cons.IH [OF inv1 r] have i2: "graph_inv g2" and sub2: "set (vars g1) \<subseteq> set (vars g2)"
    and rv': "set rv' \<subseteq> snd ` set (vars g2)" by simp_all
  from Cons.prems(2) s r have eq: "g' = g2" "rv = frm # rv'" by (simp_all add: Let_def)
  from mem sub2 have "(ri, frm) \<in> set (vars g2)" by blast
  then have "frm \<in> snd ` set (vars g2)" by (rule image_eqI [rotated]) simp
  with i2 sub sub2 rv' eq show ?case by simp
qed

lemma match_actuals_ok: "graph_inv g \<Longrightarrow> ok_result (match_actuals g xs)"
proof (induction xs arbitrary: g)
  case Nil
  then show ?case by simp
next
  case (Cons x rest)
  obtain matcher actual where x: "x = (matcher, actual)" by fastforce
  obtain g1 frm where s: "addVarNode g actual = (g1, frm)" by fastforce
  from addVarNode_inv [OF Cons.prems s] have inv1: "graph_inv g1"
    and mem: "(actual, frm) \<in> set (vars g1)" by simp_all
  have "ok_result (useMap_insert (addSource g1 matcher frm) (VarNode_getValue g1 frm) matcher)"
    using inv1 mem by (intro install_ok [where operand = actual]) simp_all
  then have "ok_result (case useMap_insert (addSource g1 matcher frm) (VarNode_getValue g1 frm) matcher of
      Inl e \<Rightarrow> Inl e | Inr g3 \<Rightarrow> match_actuals g3 rest)"
    by (rule ok_result_bind) (rule Cons.IH)
  moreover have "VarNode_getValue (addSource g1 matcher frm) frm = VarNode_getValue g1 frm"
    by (simp add: addSource_def VarNode_getValue_def split: BasicOp.splits)
  ultimately show ?case using s x by (simp add: Let_def)
qed

lemma match_actuals_vars_mono:
  "match_actuals g xs = Inr g' \<Longrightarrow> set (vars g) \<subseteq> set (vars g')"
proof (induction xs arbitrary: g)
  case Nil
  then show ?case by simp
next
  case (Cons x rest)
  obtain matcher actual where x: "x = (matcher, actual)" by fastforce
  obtain g1 frm where s: "addVarNode g actual = (g1, frm)" by fastforce
  from Cons.prems x s obtain g3 where
    u: "useMap_insert (addSource g1 matcher frm) (VarNode_getValue (addSource g1 matcher frm) frm) matcher = Inr g3"
    and r: "match_actuals g3 rest = Inr g'"
    by (auto simp add: Let_def split: sum.splits)
  from useMap_insert_vars [OF u] have "vars g3 = vars g1" by simp
  with Cons.IH [OF r] addVarNode_vars_mono [OF s] show ?case by auto
qed

lemma match_return_sources_ok:
  "graph_inv g \<Longrightarrow> set rv \<subseteq> snd ` set (vars g) \<Longrightarrow> ok_result (match_return_sources g phiOp rv)"
proof (induction rv arbitrary: g)
  case Nil
  then show ?case by simp
next
  case (Cons var vit)
  from Cons.prems(2) obtain v where mem: "(v, var) \<in> set (vars g)" by auto
  have ok: "ok_result (useMap_insert (addSource g phiOp var) (VarNode_getValue g var) phiOp)"
    using Cons.prems(1) mem by (intro install_ok [where operand = v]) simp_all
  have "ok_result (case useMap_insert (addSource g phiOp var) (VarNode_getValue g var) phiOp of
      Inl e \<Rightarrow> Inl e | Inr g2 \<Rightarrow> match_return_sources g2 phiOp vit)"
  proof (rule ok_result_bind [OF ok])
    fix g2 assume u: "useMap_insert (addSource g phiOp var) (VarNode_getValue g var) phiOp = Inr g2"
      and i: "graph_inv g2"
    from useMap_insert_vars [OF u] have "vars g2 = vars g" by simp
    with Cons.prems(2) have "set vit \<subseteq> snd ` set (vars g2)" by simp
    with i show "ok_result (match_return_sources g2 phiOp vit)" by (rule Cons.IH)
  qed
  moreover have "VarNode_getValue (addSource g phiOp var) var = VarNode_getValue g var"
    by (simp add: addSource_def VarNode_getValue_def split: BasicOp.splits)
  ultimately show ?case by (simp add: Let_def)
qed

lemma match_return_sources_vars:
  "match_return_sources g phiOp rv = Inr g' \<Longrightarrow> vars g' = vars g"
proof (induction rv arbitrary: g)
  case Nil
  then show ?case by simp
next
  case (Cons var vit)
  from Cons.prems obtain g2 where
    u: "useMap_insert (addSource g phiOp var) (VarNode_getValue (addSource g phiOp var) var) phiOp = Inr g2"
    and r: "match_return_sources g2 phiOp vit = Inr g'"
    by (auto simp add: Let_def split: sum.splits)
  from useMap_insert_vars [OF u] Cons.IH [OF r] show ?case by simp
qed

lemma match_uses_ok:
  "graph_inv g \<Longrightarrow> set rv \<subseteq> snd ` set (vars g) \<Longrightarrow> ok_result (match_uses g noReturn ms rv us)"
proof (induction us arbitrary: g)
  case Nil
  then show ?case by simp
next
  case (Cons U UI)
  show ?case
  proof (cases U)
    case BlockAddressUser
    then show ?thesis using Cons by simp
  next
    case OtherUser
    then show ?thesis using Cons by simp
  next
    case (CallUser caller actuals isCallee)
    show ?thesis
    proof (cases isCallee)
      case False
      then show ?thesis using CallUser Cons by simp
    next
      case True
      have "ok_result (case match_actuals g (zip ms actuals) of
          Inl e \<Rightarrow> Inl e
        | Inr g1 \<Rightarrow>
            (if \<not> noReturn then
               (let (g2, to) = addVarNode g1 caller;
                    (g3, phiOp) = new_op g2 (PhiOp MaxInterval to [] PHI);
                    g4 = g3\<lparr>oprs := set_insert phiOp (oprs g3)\<rparr>;
                    g5 = g4\<lparr>defMap := (defMap g4)(VarNode_getValue g4 to \<mapsto> phiOp)\<rparr>
                in case match_return_sources g5 phiOp rv of
                     Inl e \<Rightarrow> Inl e
                   | Inr g6 \<Rightarrow> match_uses g6 noReturn ms rv UI)
             else match_uses g1 noReturn ms rv UI))"
      proof (rule ok_result_bind [OF match_actuals_ok [OF Cons.prems(1)]])
        fix g1 assume m: "match_actuals g (zip ms actuals) = Inr g1" and inv1: "graph_inv g1"
        from match_actuals_vars_mono [OF m] Cons.prems(2)
        have rv1: "set rv \<subseteq> snd ` set (vars g1)" by blast
        show "ok_result (if \<not> noReturn then
               (let (g2, to) = addVarNode g1 caller;
                    (g3, phiOp) = new_op g2 (PhiOp MaxInterval to [] PHI);
                    g4 = g3\<lparr>oprs := set_insert phiOp (oprs g3)\<rparr>;
                    g5 = g4\<lparr>defMap := (defMap g4)(VarNode_getValue g4 to \<mapsto> phiOp)\<rparr>
                in case match_return_sources g5 phiOp rv of
                     Inl e \<Rightarrow> Inl e
                   | Inr g6 \<Rightarrow> match_uses g6 noReturn ms rv UI)
             else match_uses g1 noReturn ms rv UI)"
        proof (cases noReturn)
          case True
          then show ?thesis using Cons.IH [OF inv1 rv1] by simp
        next
          case False
          obtain g2 to where s: "addVarNode g1 caller = (g2, to)" by fastforce
          from addVarNode_inv [OF inv1 s] have inv2: "graph_inv g2"
            and sub: "set (vars g1) \<subseteq> set (vars g2)" by simp_all
          let ?g5 = "g2\<lparr>ops := (ops g2)(opCount g2 := PhiOp MaxInterval to [] PHI),
                 opCount := Suc (opCount g2), oprs := set_insert (opCount g2) (oprs g2),
                 defMap := (defMap g2)(VarNode_getValue g2 to \<mapsto> opCount g2)\<rparr>"
          have inv5: "graph_inv ?g5" using inv2 by simp
          have rv5: "set rv \<subseteq> snd ` set (vars ?g5)" using rv1 sub by auto
          have "ok_result (case match_return_sources ?g5 (opCount g2) rv of
                     Inl e \<Rightarrow> Inl e
                   | Inr g6 \<Rightarrow> match_uses g6 noReturn ms rv UI)"
          proof (rule ok_result_bind [OF match_return_sources_ok [OF inv5 rv5]])
            fix g6 assume r: "match_return_sources ?g5 (opCount g2) rv = Inr g6" and inv6: "graph_inv g6"
            from match_return_sources_vars [OF r] rv5 have "set rv \<subseteq> snd ` set (vars g6)" by simp
            with inv6 show "ok_result (match_uses g6 noReturn ms rv UI)" by (rule Cons.IH)
          qed
          then show ?thesis using False s by (simp add: Let_def new_op_def)
        qed
      qed
      then show ?thesis using CallUser True by simp
    qed
  qed
qed

lemma MatchParametersAndReturnValues_ok:
  assumes "graph_inv G"
  shows "ok_result (MatchParametersAndReturnValues F G)"
proof (cases "fun_uses F = []")
  case True
  then show ?thesis using assms by (simp add: MatchParametersAndReturnValues_def)
next
  case False
  obtain G1 ms where f: "match_formals G (fun_args F) = (G1, ms)" by fastforce
  from match_formals_inv [OF assms f] have inv1: "graph_inv G1" by simp
  obtain G2 rv where r: "match_returnvars G1 (if \<not> fun_returnsVoid F then remdups (fun_returnValues F) else []) = (G2, rv)"
    by fastforce
  from match_returnvars_inv [OF inv1 r] have inv2: "graph_inv G2" and rv: "set rv \<subseteq> snd ` set (vars G2)"
    by simp_all
  from match_uses_ok [OF inv2 rv] show ?thesis using False f r
    by (simp add: MatchParametersAndReturnValues_def Let_def)
qed

lemma VarNode_init_nodeV [simp]: "nodeV (VarNode_init n outside) = nodeV n"
  by (simp add: VarNode_init_def Let_def split: Value.splits)

lemma buildVarNodes_loop_same_nodes: "same_nodes g (buildVarNodes_loop g xs)"
proof (induction xs arbitrary: g)
  case Nil
  then show ?case by (simp add: same_nodes_refl)
next
  case (Cons x xs)
  obtain v node where x: "x = (v, node)" by fastforce
  let ?g1 = "g\<lparr>nodes := (nodes g)(node := VarNode_init (nodes g node) (defMap g v = None))\<rparr>"
  have "same_nodes g ?g1" by (simp add: same_nodes_def VarNode_getValue_def)
  from same_nodes_trans [OF this Cons.IH [of ?g1]] show ?case using x by simp
qed

lemma buildVarNodes_same_nodes: "same_nodes g (buildVarNodes g)"
  by (simp add: buildVarNodes_def buildVarNodes_loop_same_nodes)

lemma buildSymbolicIntersectMap_loop_same_nodes: "same_nodes g (buildSymbolicIntersectMap_loop g xs)"
proof (induction xs arbitrary: g)
  case Nil
  then show ?case by (simp add: same_nodes_refl)
next
  case (Cons op oit)
  let ?g1 = "case ops g op of
          UnaryOp (SymbInterval r b p) s src opc \<Rightarrow> g\<lparr>symbMap := symbMap_insert (symbMap g) b op\<rparr>
        | SigmaOp (SymbInterval r b p) s src opc u \<Rightarrow> g\<lparr>symbMap := symbMap_insert (symbMap g) b op\<rparr>
        | _ \<Rightarrow> g"
  have "same_nodes g ?g1"
    by (simp add: same_nodes_refl same_nodes_symbMap split: BasicOp.splits BasicInterval.splits)
  from same_nodes_trans [OF this Cons.IH [of ?g1]] show ?case by simp
qed

lemma buildSymbolicIntersectMap_same_nodes: "same_nodes g (buildSymbolicIntersectMap g)"
  using same_nodes_trans [OF same_nodes_symbMap buildSymbolicIntersectMap_loop_same_nodes]
  by (simp add: buildSymbolicIntersectMap_def)

lemma addControlDependenceEdges_ops_same_nodes:
  "addControlDependenceEdges_ops g bound xs = Inr g' \<Longrightarrow> same_nodes g g'"
proof (induction xs arbitrary: g)
  case Nil
  then show ?case by (simp add: same_nodes_refl)
next
  case (Cons op opit)
  from Cons.prems obtain source where src: "map_of (vars g) bound = Some source"
    by (auto split: option.splits)
  let ?g2 = "g\<lparr>ops := (ops g)(opCount g := ControlDep MaxInterval (getSink (ops g op)) source),
               opCount := Suc (opCount g),
               useMap := (useMap g)(bound \<mapsto> set_insert (opCount g)
                  (case useMap g bound of None \<Rightarrow> [] | Some l \<Rightarrow> l))\<rparr>"
  have sn: "same_nodes g ?g2" by (simp add: same_nodes_def VarNode_getValue_def)
  from Cons.prems src have "addControlDependenceEdges_ops ?g2 bound opit = Inr g'"
    by (simp add: Let_def new_op_def)
  from same_nodes_trans [OF sn Cons.IH [OF this]] show ?case .
qed

lemma addControlDependenceEdges_loop_same_nodes:
  "addControlDependenceEdges_loop g xs = Inr g' \<Longrightarrow> same_nodes g g'"
proof (induction xs arbitrary: g)
  case Nil
  then show ?case by (simp add: same_nodes_refl)
next
  case (Cons x sit)
  obtain bound l where x: "x = (bound, l)" by fastforce
  from Cons.prems x obtain g1 where a: "addControlDependenceEdges_ops g bound l = Inr g1"
    and b: "addControlDependenceEdges_loop g1 sit = Inr g'"
    by (auto split: sum.splits)
  from same_nodes_trans [OF addControlDependenceEdges_ops_same_nodes [OF a] Cons.IH [OF b]]
  show ?case .
qed

lemma addControlDependenceEdges_same_nodes:
  "addControlDependenceEdges g = Inr g' \<Longrightarrow> same_nodes g g'"
  by (simp add: addControlDependenceEdges_def addControlDependenceEdges_loop_same_nodes)

lemma delControlDependenceEdges_same_nodes: "same_nodes g (delControlDependenceEdges g)"
  by (simp add: delControlDependenceEdges_def same_nodes_def VarNode_getValue_def)

lemma eval_error: "eval g op = Inl e \<Longrightarrow> e = OutOfBounds"
  by (cases op) (auto simp add: eval_def PhiOp_eval_def split: list.splits)

lemma propagateToNextSCC_ops_same_nodes:
  "propagateToNextSCC_ops g xs = Inr g' \<Longrightarrow> same_nodes g g'"
proof (induction xs arbitrary: g)
  case Nil
  then show ?case by (simp add: same_nodes_refl)
next
  case (Cons op sit)
  from Cons.prems obtain r where r: "eval g (ops g op) = Inr r" by (auto split: sum.splits)
  let ?g1 = "VarNode_setRange g (getSink (ops g op)) r"
  let ?g2 = "case ops ?g1 op of
                       SigmaOp i s src opc u \<Rightarrow>
                         (if isUnknown (getRange i) then markUnresolved ?g1 op else ?g1)
                     | _ \<Rightarrow> ?g1"
  have "same_nodes ?g1 ?g2"
    by (simp add: same_nodes_refl same_nodes_markUnresolved split: BasicOp.splits)
  with same_nodes_setRange have sn: "same_nodes g ?g2" by (rule same_nodes_trans)
  from Cons.prems r have "propagateToNextSCC_ops ?g2 sit = Inr g'" by (simp add: Let_def)
  from same_nodes_trans [OF sn Cons.IH [OF this]] show ?case .
qed

lemma propagateToNextSCC_ops_error:
  "propagateToNextSCC_ops g xs = Inl e \<Longrightarrow> e = OutOfBounds"
proof (induction xs arbitrary: g)
  case Nil
  then show ?case by simp
next
  case (Cons op sit)
  show ?case
  proof (cases "eval g (ops g op)")
    case (Inl e')
    with Cons.prems eval_error [OF Inl] show ?thesis by simp
  next
    case (Inr r)
    with Cons.prems Cons.IH show ?thesis by (simp add: Let_def)
  qed
qed

lemma same_nodes_addresses: "same_nodes g g' \<Longrightarrow> vars g' = vars g"
  by (simp add: same_nodes_def)

lemma propagateToNextSCC_same_nodes:
  "propagateToNextSCC g xs = Inr g' \<Longrightarrow> same_nodes g g'"
proof (induction xs arbitrary: g)
  case Nil
  then show ?case by (simp add: same_nodes_refl)
next
  case (Cons var cit)
  from Cons.prems obtain p g1 where a: "propagateToNextSCC_ops g p = Inr g1"
    and b: "propagateToNextSCC g1 cit = Inr g'"
    by (auto split: option.splits sum.splits)
  from same_nodes_trans [OF propagateToNextSCC_ops_same_nodes [OF a] Cons.IH [OF b]] show ?case .
qed

lemma propagateToNextSCC_finds_keys:
  "graph_inv g \<Longrightarrow> set component \<subseteq> snd ` set (vars g) \<Longrightarrow>
   propagateToNextSCC g component \<noteq> Inl KeyNotFound"
proof (induction component arbitrary: g)
  case Nil
  then show ?case by simp
next
  case (Cons var cit)
  from Cons.prems(2) obtain v where mem: "(v, var) \<in> set (vars g)" by auto
  from graph_inv_key [OF Cons.prems(1) mem] obtain p where
    p: "useMap g (VarNode_getValue g var) = Some p" by auto
  show ?case
  proof (cases "propagateToNextSCC_ops g p")
    case (Inl e)
    with propagateToNextSCC_ops_error [OF Inl] p show ?thesis by simp
  next
    case (Inr g1)
    from propagateToNextSCC_ops_same_nodes [OF Inr] have sn: "same_nodes g g1" .
    from graph_inv_same_nodes [OF Cons.prems(1) sn] have inv1: "graph_inv g1" .
    from same_nodes_addresses [OF sn] Cons.prems(2) have "set cit \<subseteq> snd ` set (vars g1)" by simp
    from Cons.IH [OF inv1 this] p Inr show ?thesis by simp
  qed
qed

lemma buildUseMap_loop_finds_keys:
  "graph_inv g \<Longrightarrow> set vit \<subseteq> snd ` set (vars g) \<Longrightarrow>
   \<exists>cum'. buildUseMap_loop g component cum vit = Inr cum'"
proof (induction vit arbitrary: cum)
  case Nil
  then show ?case by simp
next
  case (Cons var vit)
  from Cons.prems(2) obtain v where mem: "(v, var) \<in> set (vars g)" by auto
  from graph_inv_key [OF Cons.prems(1) mem] obtain p where
    p: "useMap g (VarNode_getValue g var) = Some p" by auto
  from Cons.prems(2) have "set vit \<subseteq> snd ` set (vars g)" by simp
  from Cons.IH [OF Cons.prems(1) this] p show ?case by (simp add: Let_def)
qed

lemma Meet_fixed_same_nodes: "Meet_fixed g op = Inr (g', ch) \<Longrightarrow> same_nodes g g'"
  by (auto simp add: Meet_fixed_def Let_def same_nodes_setRange split: sum.splits)

lemma update_fixed_same_nodes:
  "snd (update_fixed n cum L actv g k) = Inr (g', actv') \<Longrightarrow> same_nodes g g'"
proof (induction n cum L actv g k rule: update_fixed.induct)
  case (1 nIterations compUseMap op bgn actv g evals)
  show ?case
  proof (cases "nIterations = 0")
    case True
    with "1.prems" show ?thesis by (simp add: same_nodes_refl)
  next
    case False
    with "1.prems" obtain g1 ch where mf: "Meet_fixed g op = Inr (g1, ch)"
      by (auto split: sum.splits)
    from "1.prems" False mf have "snd (update_fixed (nIterations - 1) compUseMap bgn
        (if ch then set_insert (VarNode_getValue g1 (getSink (ops g1 op))) actv else actv)
        g1 (Suc evals)) = Inr (g', actv')" by simp
    from same_nodes_trans [OF Meet_fixed_same_nodes [OF mf] "1.IH" [OF False mf refl this]]
    show ?thesis .
  qed
next
  case (2 nIterations compUseMap g evals)
  then show ?case by (simp add: same_nodes_refl)
next
  case (3 nIterations compUseMap V actv g evals)
  then show ?case by (auto split: option.splits)
qed

lemma update_same_nodes:
  "snd (update n cum actv g) = Inr (g', actv') \<Longrightarrow> same_nodes g g'"
  by (simp add: update_def update_fixed_same_nodes)

lemma ok_result_Inr: "ok_result r \<Longrightarrow> r = Inr g \<Longrightarrow> graph_inv g"
  by simp

lemma ok_result_not_KeyNotFound: "ok_result r \<Longrightarrow> r \<noteq> Inl KeyNotFound"
  by (auto simp add: ok_result_def)

lemma reachable_graph_inv: "reachable g \<Longrightarrow> graph_inv g"
proof (induction rule: reachable.induct)
  case r_ctor
  show ?case by (rule graph_inv_ctor)
next
  case (r_addVarNode g v)
  obtain g' a where "addVarNode g v = (g', a)" by fastforce
  with addVarNode_inv [OF r_addVarNode.IH this] show ?case by simp
next
  case (r_valueMaps g bm sm)
  then show ?case by simp
next
  case (r_addUnaryOp g I g')
  from ok_result_Inr [OF addUnaryOp_ok [OF r_addUnaryOp.IH] r_addUnaryOp.hyps(2)] show ?case .
next
  case (r_addBinaryOp g I g')
  from ok_result_Inr [OF addBinaryOp_ok [OF r_addBinaryOp.IH] r_addBinaryOp.hyps(2)] show ?case .
next
  case (r_addPhiOp g I g')
  from ok_result_Inr [OF addPhiOp_ok [OF r_addPhiOp.IH] r_addPhiOp.hyps(2)] show ?case .
next
  case (r_addSigmaOp g I g')
  from ok_result_Inr [OF addSigmaOp_ok [OF r_addSigmaOp.IH] r_addSigmaOp.hyps(2)] show ?case .
next
  case (r_match g F g')
  from ok_result_Inr [OF MatchParametersAndReturnValues_ok [OF r_match.IH] r_match.hyps(2)]
  show ?case .
next
  case (r_buildVarNodes g)
  from graph_inv_same_nodes [OF r_buildVarNodes.IH buildVarNodes_same_nodes] show ?case .
next
  case (r_symbMap g)
  from graph_inv_same_nodes [OF r_symbMap.IH buildSymbolicIntersectMap_same_nodes] show ?case .
next
  case (r_addControlDep g g')
  from graph_inv_same_nodes [OF r_addControlDep.IH
      addControlDependenceEdges_same_nodes [OF r_addControlDep.hyps(2)]] show ?case .
next
  case (r_delControlDep g)
  from graph_inv_same_nodes [OF r_delControlDep.IH delControlDependenceEdges_same_nodes]
  show ?case .
next
  case (r_setRange g a r)
  from graph_inv_same_nodes [OF r_setRange.IH same_nodes_setRange] show ?case .
next
  case (r_markUnresolved g op)
  from graph_inv_same_nodes [OF r_markUnresolved.IH same_nodes_markUnresolved] show ?case .
next
  case (r_ops g x)
  then show ?case by simp
next
  case (r_storeAbstractState g a)
  have "same_nodes g (g\<lparr>nodes := (nodes g)(a := storeAbstractState (nodes g a))\<rparr>)"
    by (simp add: same_nodes_def VarNode_getValue_def storeAbstractState_def)
  from graph_inv_same_nodes [OF r_storeAbstractState.IH this] show ?case .
next
  case (r_useList g v)
  have "same_nodes g (g\<lparr>useMap := (useMap g)(v \<mapsto> [])\<rparr>)"
    by (simp add: same_nodes_def)
  from graph_inv_same_nodes [OF r_useList.IH this] show ?case .
next
  case (r_update g n compUseMap actv g' actv')
  from graph_inv_same_nodes [OF r_update.IH update_same_nodes [OF r_update.hyps(2)]] show ?case .
next
  case (r_propagate g component g')
  from graph_inv_same_nodes [OF r_propagate.IH
      propagateToNextSCC_same_nodes [OF r_propagate.hyps(2)]] show ?case .
qed

lemma addVarNode_map_of:
  "map_of (vars (fst (addVarNode g v))) v = Some (snd (addVarNode g v))"
  by (cases "map_of (vars g) v") (simp_all add: addVarNode_def Let_def map_add_def)

lemma addVarNode_useMap:
  assumes "graph_inv g"
  shows "useMap (fst (addVarNode g v)) v \<noteq> None"
proof -
  obtain g' a where s: "addVarNode g v = (g', a)" by fastforce
  from addVarNode_inv [OF assms s] have "graph_inv g'" and "(v, a) \<in> set (vars g')" by simp_all
  then have "useMap g' v \<noteq> None" by (auto simp add: graph_inv_def)
  with s show ?thesis by simp
qed

section \<open>The graph of the example\<close>

lemma the_graph_eq: "(case r of Inl e \<Rightarrow> False | Inr g \<Rightarrow> True) \<Longrightarrow> r = Inr (the_graph r)"
  by (cases r) (simp_all add: the_graph_def)

lemma loop_with_phi_eq: "addPhiOp ConstraintGraph_ctor loop_phi = Inr loop_with_phi"
  unfolding loop_with_phi_def by (rule the_graph_eq) code_simp

lemma loop_built_eq: "addBinaryOp loop_with_phi loop_add = Inr loop_built"
  unfolding loop_built_def by (rule the_graph_eq) code_simp

lemma loop_after_zero_eq: "propagateToNextSCC (buildVarNodes loop_built) [1] = Inr loop_after_zero"
  unfolding loop_after_zero_def by (rule the_graph_eq) code_simp

lemma loop_entered_eq: "propagateToNextSCC loop_after_zero [3] = Inr loop_entered"
  unfolding loop_entered_def by (rule the_graph_eq) code_simp

lemma reachable_loop_built: "reachable loop_built"
  using r_addBinaryOp [OF r_addPhiOp [OF r_ctor loop_with_phi_eq] loop_built_eq] .

lemma reachable_loop_entered: "reachable loop_entered"
  using r_propagate [OF r_propagate [OF r_buildVarNodes [OF reachable_loop_built]
      loop_after_zero_eq] loop_entered_eq] .

lemma loop_built_vars:
  "vars loop_built = [(Variable 0 32, 0), (ConstantInt 32 0, 1), (Variable 1 32, 2), (ConstantInt 32 1, 3)]"
  by code_simp

lemma loop_built_defMap:
  "map (defMap loop_built) [Variable 0 32, ConstantInt 32 0, Variable 1 32, ConstantInt 32 1]
   = [Some 0, None, Some 1, None]"
  by code_simp

lemma loop_built_intervals:
  "map (VarNode_getRange (buildVarNodes loop_built)) [0, 1, 2, 3]
   = [Range Min Max Unknown, Range 0 0 Regular, Range Min Max Unknown, Range 1 1 Regular]"
  by code_simp

lemma loop_entered_intervals:
  "map (VarNode_getRange loop_entered) [0, 1, 2, 3]
   = [Range 0 0 Regular, Range 0 0 Regular, Range 1 1 Regular, Range 1 1 Regular]"
  by code_simp

lemma loop_entered_phi: "ops loop_entered 0 = PhiOp MaxInterval 0 [1, 2] PHI"
  by code_simp

section \<open>Consistency of the result of a binary operation\<close>

lemma addVarNode_ops:
  "addVarNode g v = (g', a) \<Longrightarrow> ops g' = ops g \<and> opCount g' = opCount g"
  by (auto simp add: addVarNode_def Let_def split: option.splits)

lemma useMap_insert_ops:
  "useMap_insert g v op = Inr g' \<Longrightarrow> ops g' = ops g \<and> opCount g' = opCount g"
  by (auto simp add: useMap_insert_def split: option.splits)

text \<open>The operation that \<open>addBinaryOp\<close> creates has the full range as its intersect.\<close>

lemma addBinaryOp_intersect:
  assumes "addBinaryOp g I = Inr g'"
  shows "opCount g' = Suc (opCount g)
       \<and> isMaxRange (getRange (getIntersect (ops g' (opCount g))))
       \<and> (\<exists>sink source1 source2.
             ops g' (opCount g) = BinaryOp MaxInterval sink source1 source2 (inst_opcode I))"
proof -
  obtain g1 sink where s1: "addVarNode g (inst_value I) = (g1, sink)" by fastforce
  from assms s1 obtain operand0 where o0: "getOperand I 0 = Inr operand0"
    by (auto simp add: addBinaryOp_def split: sum.splits)
  obtain g2 source1 where s2: "addVarNode g1 operand0 = (g2, source1)" by fastforce
  from assms s1 o0 s2 obtain operand1 where o1: "getOperand I 1 = Inr operand1"
    by (auto simp add: addBinaryOp_def split: sum.splits)
  obtain g3 source2 where s3: "addVarNode g2 operand1 = (g3, source2)" by fastforce
  let ?g6 = "g3\<lparr>ops := (ops g3)(opCount g3 := BinaryOp MaxInterval sink source1 source2 (inst_opcode I)),
                   opCount := Suc (opCount g3), oprs := set_insert (opCount g3) (oprs g3),
                   defMap := (defMap g3)(VarNode_getValue g3 sink \<mapsto> opCount g3)\<rparr>"
  from assms s1 o0 s2 o1 s3 obtain g7 where
    u1: "useMap_insert ?g6 (VarNode_getValue g3 source1) (opCount g3) = Inr g7"
    and u2: "useMap_insert g7 (VarNode_getValue g7 source2) (opCount g3) = Inr g'"
    by (auto simp add: addBinaryOp_def Let_def new_op_def split: sum.splits)
  from addVarNode_ops [OF s1] addVarNode_ops [OF s2] addVarNode_ops [OF s3]
  have c: "opCount g3 = opCount g" by simp
  from useMap_insert_ops [OF u1] useMap_insert_ops [OF u2]
  have "ops g' = ops ?g6" "opCount g' = opCount ?g6" by simp_all
  with c show ?thesis by (simp add: MaxInterval_def isMaxRange_def)
qed

text \<open>
  C2, as stated, fails: \<open>BinaryOp::eval\<close> promotes an inconsistent result of the operation
  to \<open>[Min, Max]\<close> before it applies \<open>intersectWith\<close>, not after. With the intersect
  \<open>[5, 10]\<close> the sum of \<open>[0, 0]\<close> and \<open>[0, 0]\<close> evaluates to the Regular range \<open>[5, 0]\<close>.
\<close>

theorem BinaryOp_eval_intersect_counterexample:
  "BinaryOp_eval zeros (BinaryOp (BasicInterval (Range 5 10 Regular)) 2 0 1 Add) = Range 5 0 Regular
   \<and> isRegular (BinaryOp_eval zeros (BinaryOp (BasicInterval (Range 5 10 Regular)) 2 0 1 Add))
   \<and> sgt (getLower (BinaryOp_eval zeros (BinaryOp (BasicInterval (Range 5 10 Regular)) 2 0 1 Add)))
          (getUpper (BinaryOp_eval zeros (BinaryOp (BasicInterval (Range 5 10 Regular)) 2 0 1 Add)))"
  by (simp add: BinaryOp_eval_def zeros_def Let_def VarNode_getRange_def isRegular_def
      BinaryOp_apply_def Range_add_def Min_def Max_def sgt_def slt_def isMaxRange_def
      intersectWith_def isEmpty_def isUnknown_def word_sless_alt word_sle_eq)

text \<open>
  C2, amended. \<open>BinaryOp::eval\<close> promotes the result of the operation to \<open>[Min, Max]\<close> when
  its lower bound exceeds its upper bound, before the intersection. When the intersect of
  the operation is the full range, as it is for every \<open>BinaryOp\<close> that \<open>addBinaryOp\<close>
  creates, no intersection follows and \<open>BinaryOp::eval\<close> never returns a Regular range
  whose lower bound exceeds its upper bound.
\<close>

theorem BinaryOp_eval_consistent:
  assumes "isMaxRange (getRange (getIntersect op))"
  shows "\<not> (isRegular (BinaryOp_eval g op)
            \<and> sgt (getLower (BinaryOp_eval g op)) (getUpper (BinaryOp_eval g op)))"
  using assms by (simp add: BinaryOp_eval_def Let_def not_sgt_Max isRegular_def)

theorem BinaryOp_eval_consistent_witness:
  "isMaxRange (getRange (getIntersect (BinaryOp MaxInterval 2 0 1 Add :: 32 word BasicOp)))
   \<and> \<not> (isRegular (BinaryOp_eval zeros (BinaryOp MaxInterval 2 0 1 Add))
         \<and> sgt (getLower (BinaryOp_eval zeros (BinaryOp MaxInterval 2 0 1 Add)))
                (getUpper (BinaryOp_eval zeros (BinaryOp MaxInterval 2 0 1 Add))))"
proof -
  have h: "isMaxRange (getRange (getIntersect (BinaryOp MaxInterval 2 0 1 Add :: 32 word BasicOp)))"
    by (simp add: MaxInterval_def isMaxRange_def)
  from BinaryOp_eval_consistent [OF h, of zeros] h show ?thesis by simp
qed

section \<open>Evaluation of a phi operation of the example\<close>

theorem PhiOp_eval_union_of_sources_witness:
  "getSources (PhiOp MaxInterval 0 [1, 2] PHI :: 32 word BasicOp) = 1 # [2]
   \<and> ops loop_entered 0 = PhiOp MaxInterval 0 [1, 2] PHI
   \<and> PhiOp_eval loop_entered (PhiOp MaxInterval 0 [1, 2] PHI) = Inr (Range 0 1 Regular)
   \<and> isRegular (VarNode_getRange loop_entered 2)
   \<and> Range_subseteq (VarNode_getRange loop_entered 2) (Range 0 1 Regular)"
proof -
  have h: "getSources (PhiOp MaxInterval 0 [1, 2] PHI :: 32 word BasicOp) = 1 # [2]" by simp
  have r: "VarNode_getRange loop_entered 1 = Range 0 0 Regular"
    "VarNode_getRange loop_entered 2 = Range 1 1 Regular"
    using loop_entered_intervals by simp_all
  have u: "unionWith (Range (0::32 word) 0 Regular) (Range 1 1 Regular) = Range 0 1 Regular"
    by (simp add: unionWith_def isEmpty_def isUnknown_def slt_def sgt_def word_sless_alt)
  from PhiOp_eval_union_of_sources [OF h, of loop_entered] r u loop_entered_phi
  show ?thesis
    by (simp add: isRegular_def Range_subseteq_def sle_def word_sle_eq)
qed

section \<open>The range of a value of the graph\<close>

text \<open>
  C1. \<open>ConstraintGraph::getRange\<close> returns the Unknown interval for every graph and
  every value, also for a value that has a node: in the graph of the example, after
  \<open>buildVarNodes\<close>, the constant \<open>1\<close> has the node at address 3, whose interval is
  \<open>[1, 1]\<close>, and \<open>getRange\<close> of the constant is Unknown.
\<close>

theorem getRange_is_Unknown:
  "ConstraintGraph_getRange g v = Range Min Max Unknown
   \<and> map_of (vars (buildVarNodes loop_built)) (ConstantInt 32 1) = Some 3
   \<and> VarNode_getRange (buildVarNodes loop_built) 3 = Range 1 1 Regular
   \<and> ConstraintGraph_getRange (buildVarNodes loop_built) (ConstantInt 32 1) = Range Min Max Unknown"
proof -
  have "vars (buildVarNodes loop_built) = vars loop_built"
    using buildVarNodes_same_nodes [of loop_built] by (simp add: same_nodes_def)
  then have "map_of (vars (buildVarNodes loop_built)) (ConstantInt 32 1) = Some 3"
    by (simp add: loop_built_vars)
  moreover have "VarNode_getRange (buildVarNodes loop_built) 3 = Range 1 1 Regular"
    using loop_built_intervals by simp
  ultimately show ?thesis by (simp add: ConstraintGraph_getRange_def)
qed

section \<open>The initial intervals\<close>

lemma buildVarNodes_loop_maps:
  "defMap (buildVarNodes_loop g xs) = defMap g \<and> vars (buildVarNodes_loop g xs) = vars g"
  by (induction xs arbitrary: g) auto

lemma buildVarNodes_loop_other:
  "a \<notin> snd ` set xs \<Longrightarrow> nodes (buildVarNodes_loop g xs) a = nodes g a"
  by (induction xs arbitrary: g) auto

lemma buildVarNodes_loop_node:
  "distinct (map snd xs) \<Longrightarrow> (v, a) \<in> set xs \<Longrightarrow>
   nodes (buildVarNodes_loop g xs) a = VarNode_init (nodes g a) (defMap g v = None)"
proof (induction xs arbitrary: g)
  case Nil
  then show ?case by simp
next
  case (Cons x xs)
  obtain v' a' where x: "x = (v', a')" by fastforce
  let ?g1 = "g\<lparr>nodes := (nodes g)(a' := VarNode_init (nodes g a') (defMap g v' = None))\<rparr>"
  from Cons.prems(1) x have d: "distinct (map snd xs)" and n: "a' \<notin> snd ` set xs" by auto
  show ?case
  proof (cases "(v, a) = (v', a')")
    case True
    with n buildVarNodes_loop_other [of a xs ?g1] x show ?thesis by simp
  next
    case False
    with Cons.prems(2) x have m: "(v, a) \<in> set xs" by auto
    with n have "a \<noteq> a'" by force
    with Cons.IH [OF d m, of ?g1] x show ?thesis by simp
  qed
qed

text \<open>
  C7, as stated, fails for constants: a \<open>ConstantInt\<close> has no entry in \<open>defMap\<close>, and
  \<open>VarNode::init\<close> gives its node the interval of the constant, not \<open>[Min, Max]\<close>. In the
  graph of the example the constant \<open>0\<close> has the node at address 1 and no definition, and
  its interval after \<open>buildVarNodes\<close> is \<open>[0, 0]\<close>.
\<close>

theorem buildVarNodes_constant_counterexample:
  "map_of (vars loop_built) (ConstantInt 32 0) = Some 1
   \<and> defMap loop_built (ConstantInt 32 0) = None
   \<and> VarNode_getRange (buildVarNodes loop_built) 1 = Range 0 0 Regular
   \<and> Range 0 0 Regular \<noteq> Range (Min :: 32 word) Max Regular"
  using loop_built_defMap loop_built_intervals by (simp add: loop_built_vars Min_def)

text \<open>
  C7, amended. After \<open>buildVarNodes\<close> runs on a graph that the builder has made, the node of
  a \<open>ConstantInt\<close> holds the Regular interval \<open>[c, c]\<close> of its value (sign-extended to the
  analysis width); the node of any other value holds \<open>[Min, Max]\<close> with kind Regular when
  the value has no entry in \<open>defMap\<close>, and the Unknown interval when it has one.
  \<open>buildVarNodes\<close> changes neither \<open>vars\<close> nor \<open>defMap\<close>.
\<close>

theorem buildVarNodes_initial_intervals:
  assumes "reachable g" and "(v, a) \<in> set (vars g)"
  shows "vars (buildVarNodes g) = vars g \<and> defMap (buildVarNodes g) = defMap g
       \<and> VarNode_getRange (buildVarNodes g) a =
           (case v of
              ConstantInt bw c \<Rightarrow> Range (word_of_int c) (word_of_int c) Regular
            | Variable i bw \<Rightarrow>
                (if defMap g v = None then Range Min Max Regular else Range Min Max Unknown))"
proof -
  from reachable_graph_inv [OF assms(1)] have inv: "graph_inv g" .
  then have "distinct (map snd (vars g))" by (simp add: graph_inv_def)
  from buildVarNodes_loop_node [OF this assms(2)]
  have n: "nodes (buildVarNodes g) a = VarNode_init (nodes g a) (defMap g v = None)"
    by (simp add: buildVarNodes_def)
  from graph_inv_value [OF inv assms(2)] have "nodeV (nodes g a) = v"
    by (simp add: VarNode_getValue_def)
  with n have "VarNode_getRange (buildVarNodes g) a =
           (case v of
              ConstantInt bw c \<Rightarrow> Range (word_of_int c) (word_of_int c) Regular
            | Variable i bw \<Rightarrow>
                (if defMap g v = None then Range Min Max Regular else Range Min Max Unknown))"
    by (simp add: VarNode_getRange_def VarNode_init_def Let_def split: Value.splits)
  then show ?thesis using buildVarNodes_loop_maps [of g "vars g"] by (simp add: buildVarNodes_def)
qed

theorem buildVarNodes_initial_intervals_witness:
  "reachable loop_built
   \<and> (Variable 0 32, 0) \<in> set (vars loop_built) \<and> (ConstantInt 32 1, 3) \<in> set (vars loop_built)
   \<and> defMap loop_built (Variable 0 32) = Some 0 \<and> defMap loop_built (ConstantInt 32 1) = None
   \<and> VarNode_getRange (buildVarNodes loop_built) 0 = Range Min Max Unknown
   \<and> VarNode_getRange (buildVarNodes loop_built) 3 = Range 1 1 Regular"
proof -
  have m: "(Variable 0 32, 0) \<in> set (vars loop_built)" "(ConstantInt 32 1, 3) \<in> set (vars loop_built)"
    by (simp_all add: loop_built_vars)
  have d: "defMap loop_built (Variable 0 32) = Some 0" "defMap loop_built (ConstantInt 32 1) = None"
    using loop_built_defMap by simp_all
  from buildVarNodes_initial_intervals [OF reachable_loop_built m(1)]
    buildVarNodes_initial_intervals [OF reachable_loop_built m(2)] d m reachable_loop_built
  show ?thesis by simp
qed

section \<open>Use lists of the values of the graph\<close>

text \<open>
  C10. In every graph that the analysis can hold, every value that has a node in \<open>vars\<close>
  has an entry in \<open>useMap\<close>: \<open>addVarNode\<close> leaves the value with a node and with a use
  list, and the operations of the builder, the matcher, the SCC finder and the solver
  preserve this. Hence the lookups \<open>useMap.find(...)->second\<close> find their key: those of
  the builder and of the matcher, and, for a component made of nodes of \<open>vars\<close>, those of
  \<open>buildUseMap\<close> and \<open>propagateToNextSCC\<close>.
\<close>

theorem vars_have_use_lists:
  assumes "reachable g"
  shows "(\<forall>(v, a) \<in> set (vars g). useMap g v \<noteq> None)
       \<and> map_of (vars (fst (addVarNode g v))) v = Some (snd (addVarNode g v))
       \<and> useMap (fst (addVarNode g v)) v \<noteq> None
       \<and> addUnaryOp g I \<noteq> Inl KeyNotFound \<and> addBinaryOp g I \<noteq> Inl KeyNotFound
       \<and> addPhiOp g I \<noteq> Inl KeyNotFound \<and> addSigmaOp g I \<noteq> Inl KeyNotFound
       \<and> MatchParametersAndReturnValues F g \<noteq> Inl KeyNotFound
       \<and> (set component \<subseteq> snd ` set (vars g) \<longrightarrow>
            (\<exists>m. buildUseMap g component = Inr m)
            \<and> propagateToNextSCC g component \<noteq> Inl KeyNotFound)"
proof -
  from reachable_graph_inv [OF assms] have inv: "graph_inv g" .
  have "\<forall>(v, a) \<in> set (vars g). useMap g v \<noteq> None"
    using inv by (simp add: graph_inv_def)
  moreover have "useMap (fst (addVarNode g v)) v \<noteq> None"
    using inv by (rule addVarNode_useMap)
  moreover have "addUnaryOp g I \<noteq> Inl KeyNotFound" "addBinaryOp g I \<noteq> Inl KeyNotFound"
    "addPhiOp g I \<noteq> Inl KeyNotFound" "addSigmaOp g I \<noteq> Inl KeyNotFound"
    "MatchParametersAndReturnValues F g \<noteq> Inl KeyNotFound"
    using inv
    by (simp_all add: ok_result_not_KeyNotFound addUnaryOp_ok addBinaryOp_ok addPhiOp_ok
        addSigmaOp_ok MatchParametersAndReturnValues_ok)
  moreover have "\<exists>m. buildUseMap g component = Inr m"
    if "set component \<subseteq> snd ` set (vars g)"
    using buildUseMap_loop_finds_keys [OF inv that] by (simp add: buildUseMap_def)
  moreover have "propagateToNextSCC g component \<noteq> Inl KeyNotFound"
    if "set component \<subseteq> snd ` set (vars g)"
    using propagateToNextSCC_finds_keys [OF inv that] .
  ultimately show ?thesis by (simp add: addVarNode_map_of)
qed

theorem vars_have_use_lists_witness:
  "reachable loop_built
   \<and> set loop_component \<subseteq> snd ` set (vars loop_built)
   \<and> useMap loop_built (Variable 0 32) \<noteq> None \<and> useMap loop_built (ConstantInt 32 1) \<noteq> None
   \<and> (\<exists>m. buildUseMap loop_built loop_component = Inr m)
   \<and> propagateToNextSCC loop_built loop_component \<noteq> Inl KeyNotFound"
proof -
  have c: "set loop_component \<subseteq> snd ` set (vars loop_built)"
    by (simp add: loop_built_vars loop_component_def)
  from vars_have_use_lists [OF reachable_loop_built, of _ _ _ loop_component] c
    reachable_loop_built
  show ?thesis by (simp add: loop_built_vars)
qed

section \<open>The bounded iteration before widening\<close>

lemma update_fixed_count: "fst (update_fixed n cum L actv g k) \<le> k + n"
  by (induction n cum L actv g k rule: update_fixed.induct)
     (auto split: sum.splits option.splits prod.splits)

lemma update_fixed_actv:
  "snd (update_fixed n cum L actv g k) = Inr (g', actv') \<Longrightarrow> actv' = []"
  by (induction n cum L actv g k rule: update_fixed.induct)
     (auto split: sum.splits option.splits prod.splits if_splits)

lemma or_nat_bounds: "(a::nat) \<le> a OR b \<and> a OR b \<le> a + b"
proof
  have "int a \<le> int a OR int b" by (rule or_greater_eq) simp
  then show "a \<le> a OR b" by (metis of_nat_or_eq of_nat_le_iff)
  have "(int a AND int b) + (int a OR int b) = int a + int b" by (rule plus_and_or)
  moreover have "0 \<le> (int a AND int b)" by simp
  ultimately have "int a OR int b \<le> int a + int b" by linarith
  then have "int (a OR b) \<le> int (a + b)" by (simp add: of_nat_or_eq)
  then show "a OR b \<le> a + b" by (simp only: of_nat_le_iff)
qed

lemma eval_evaluable: "evaluable op \<Longrightarrow> \<exists>r. eval g op = Inr r"
  by (cases op) (auto simp add: eval_def evaluable_def PhiOp_eval_def split: list.splits)

lemma Meet_fixed_evaluable:
  assumes "evaluable (ops g op)"
  shows "\<exists>g1 ch. Meet_fixed g op = Inr (g1, ch) \<and> ops g1 = ops g
          \<and> (\<forall>a. VarNode_getValue g1 a = VarNode_getValue g a)"
  using eval_evaluable [OF assms, of g]
  by (auto simp add: Meet_fixed_def Let_def VarNode_setRange_def VarNode_getValue_def)

lemma component_closed_cong:
  "ops g1 = ops g \<Longrightarrow> (\<forall>a. VarNode_getValue g1 a = VarNode_getValue g a) \<Longrightarrow>
   component_closed g1 cum component = component_closed g cum component"
  by (simp add: component_closed_def cong: option.case_cong)

lemma update_fixed_returns:
  assumes "component_closed g cum component"
    and "\<forall>op\<in>set L. getSink (ops g op) \<in> set component \<and> evaluable (ops g op)"
    and "\<forall>V\<in>set actv. \<exists>var\<in>set component. V = VarNode_getValue g var"
  shows "\<exists>g'. snd (update_fixed n cum L actv g k) = Inr (g', [])"
  using assms
proof (induction n cum L actv g k rule: update_fixed.induct)
  case (1 nIterations compUseMap op bgn actv g evals)
  show ?case
  proof (cases "nIterations = 0")
    case True
    then show ?thesis by simp
  next
    case False
    from "1.prems"(2) have ev: "evaluable (ops g op)" and snk: "getSink (ops g op) \<in> set component"
      by simp_all
    from Meet_fixed_evaluable [OF ev] obtain g1 ch where
      mf: "Meet_fixed g op = Inr (g1, ch)" and o: "ops g1 = ops g"
      and v: "\<forall>a. VarNode_getValue g1 a = VarNode_getValue g a" by blast
    let ?actv = "if ch then set_insert (VarNode_getValue g1 (getSink (ops g1 op))) actv else actv"
    have c: "component_closed g1 compUseMap component"
      using "1.prems"(1) component_closed_cong [OF o v] by simp
    have l: "\<forall>op\<in>set bgn. getSink (ops g1 op) \<in> set component \<and> evaluable (ops g1 op)"
      using "1.prems"(2) o by simp
    have a: "\<forall>V\<in>set ?actv. \<exists>var\<in>set component. V = VarNode_getValue g1 var"
      using "1.prems"(3) snk o v by (auto simp add: set_insert_def)
    from "1.IH" [OF False mf refl c l a] mf False show ?thesis by simp
  qed
next
  case (2 nIterations compUseMap g evals)
  then show ?case by simp
next
  case (3 nIterations compUseMap V actv g evals)
  from "3.prems"(3) obtain var where var: "var \<in> set component" "V = VarNode_getValue g var"
    by auto
  with "3.prems"(1) obtain L where L: "compUseMap V = Some L"
    and Lok: "\<forall>op\<in>set L. getSink (ops g op) \<in> set component \<and> evaluable (ops g op)"
    by (auto simp add: component_closed_def list_all_iff split: option.splits)
  have a: "\<forall>V\<in>set actv. \<exists>var\<in>set component. V = VarNode_getValue g var"
    using "3.prems"(3) by simp
  from "3.IH" [OF L "3.prems"(1) Lok a] L show ?case by simp
qed

lemma the_map_eq:
  "(case r of Inl e \<Rightarrow> False | Inr m \<Rightarrow> True) \<Longrightarrow>
   r = Inr (case r of Inl e \<Rightarrow> Map.empty | Inr m \<Rightarrow> m)"
  by (cases r) simp_all

lemma loop_compUseMap_eq: "buildUseMap loop_entered loop_component = Inr loop_compUseMap"
  unfolding loop_compUseMap_def by (rule the_map_eq) code_simp

lemma loop_component_closed: "component_closed loop_entered loop_compUseMap loop_component"
  by code_simp

lemma loop_entryPoints_in_component:
  "\<forall>V\<in>set loop_entryPoints. \<exists>var\<in>set loop_component. V = VarNode_getValue loop_entered var"
  by code_simp

lemma loop_evaluations:
  "fst (update (fixed_iterations 20 loop_component) loop_compUseMap loop_entryPoints loop_entered) = 20"
  by code_simp

text \<open>
  C8, as stated, fails: the bound that \<open>findIntervals\<close> passes is
  \<open>component.size()*2 | NUMBER_FIXED_ITERATIONS\<close>, the bitwise or of twice the size of the
  component with the macro, and not twice the size. With the macro at 20, the loop
  \<open>x = phi(0, y); y = x + 1\<close>, a component of two nodes, is evaluated 20 times.
\<close>

theorem warmup_counterexample:
  "fst (update (fixed_iterations 20 loop_component) loop_compUseMap loop_entryPoints loop_entered) = 20
   \<and> \<not> 20 \<le> 2 * length loop_component"
  using loop_evaluations by (simp add: loop_component_def)

text \<open>
  C8, amended. For every component that \<open>findIntervals\<close> processes, the iteration before
  widening calls \<open>Meet::fixed\<close> at most \<open>2\<cdot>|SCC| | NUMBER_FIXED_ITERATIONS\<close> times, a bound
  that is at least \<open>2\<cdot>|SCC|\<close> and at most \<open>2\<cdot>|SCC| + NUMBER_FIXED_ITERATIONS\<close>. The
  iteration always ends, with an empty active set whenever it returns; it returns when
  the use map of the component is the one that \<open>buildUseMap\<close> gives, no \<open>PhiOp\<close> in it
  is without sources and the entry points are values of the component. When the bound is
  exhausted the active set is cleared and the iteration stops, whether or not a fixpoint
  was reached.
\<close>

theorem warmup_bounded:
  "length component * 2 \<le> fixed_iterations N component
   \<and> fixed_iterations N component \<le> length component * 2 + N
   \<and> fst (update (fixed_iterations N component) compUseMap entryPoints g)
        \<le> fixed_iterations N component
   \<and> (\<forall>g' actv'. snd (update (fixed_iterations N component) compUseMap entryPoints g)
          = Inr (g', actv') \<longrightarrow> actv' = [])
   \<and> (component_closed g compUseMap component
        \<and> (\<forall>V\<in>set entryPoints. \<exists>var\<in>set component. V = VarNode_getValue g var)
      \<longrightarrow> (\<exists>g'. snd (update (fixed_iterations N component) compUseMap entryPoints g)
                  = Inr (g', [])))"
proof -
  have "fst (update (fixed_iterations N component) compUseMap entryPoints g)
        \<le> fixed_iterations N component"
    using update_fixed_count [of "fixed_iterations N component" compUseMap "[]" entryPoints g 0]
    by (simp add: update_def)
  moreover have "actv' = []"
    if "snd (update (fixed_iterations N component) compUseMap entryPoints g) = Inr (g', actv')"
    for g' actv'
    using that update_fixed_actv by (simp add: update_def) blast
  moreover have "\<exists>g'. snd (update (fixed_iterations N component) compUseMap entryPoints g)
                  = Inr (g', [])"
    if "component_closed g compUseMap component"
      and "\<forall>V\<in>set entryPoints. \<exists>var\<in>set component. V = VarNode_getValue g var"
    using update_fixed_returns [OF that(1) _ that(2), of "[]"] by (simp add: update_def)
  ultimately show ?thesis
    using or_nat_bounds [of "length component * 2" N] by (auto simp add: fixed_iterations_def)
qed

theorem warmup_bounded_witness:
  "component_closed loop_entered loop_compUseMap loop_component
   \<and> list_all (\<lambda>V. list_ex (\<lambda>var. V = VarNode_getValue loop_entered var) loop_component)
        loop_entryPoints
   \<and> fixed_iterations 20 loop_component = 20
   \<and> fst (update (fixed_iterations 20 loop_component) loop_compUseMap loop_entryPoints loop_entered) = 20
   \<and> (\<exists>g'. snd (update (fixed_iterations 20 loop_component) loop_compUseMap loop_entryPoints
                    loop_entered) = Inr (g', []))"
proof -
  have f: "fixed_iterations 20 loop_component = 20" by code_simp
  from warmup_bounded [of loop_component 20 loop_compUseMap loop_entryPoints loop_entered]
    loop_component_closed loop_entryPoints_in_component
  have "\<exists>g'. snd (update (fixed_iterations 20 loop_component) loop_compUseMap loop_entryPoints
                    loop_entered) = Inr (g', [])" by blast
  with f loop_component_closed loop_entryPoints_in_component loop_evaluations
  show ?thesis by (simp add: list_all_iff list_ex_iff)
qed

end
